theory Spec2Isabelle
  imports Complex_Main
begin

section \<open>JavaScript values\<close>

text \<open>
  An optional string property of a provider record (\<^verbatim>\<open>id?: string\<close>) is a
  \<open>string option\<close>: \<open>None\<close> is \<^verbatim>\<open>undefined\<close> (or \<^verbatim>\<open>null\<close>). The tests
  \<^verbatim>\<open>if (x)\<close> and \<^verbatim>\<open>!x\<close> of the source are JavaScript truthiness: an absent
  string and the empty string are both falsy. The operator \<^verbatim>\<open>??\<close> only looks at
  absence, so it is a \<open>case\<close> on the option.
\<close>

definition truthy :: "string option \<Rightarrow> bool" where
  "truthy s = (case s of None \<Rightarrow> False | Some t \<Rightarrow> t \<noteq> [])"

text \<open>
  A text that the source parses is kept as its UTF-16 code units, as a JavaScript string
  has them: \<^verbatim>\<open>parseFloat\<close> looks at code units beyond a byte. \<open>ascii\<close> gives the
  code units of an ASCII text. For the other strings only equality and emptiness matter.
\<close>

type_synonym jsstring = "nat list"

definition ascii :: "string \<Rightarrow> jsstring" where
  "ascii s = map of_char s"

text \<open>\<^verbatim>\<open>parts.join(", ")\<close>\<close>

fun join_comma :: "string list \<Rightarrow> string" where
  "join_comma [] = []"
| "join_comma [x] = x"
| "join_comma (x # y # ys) = x @ '', '' @ join_comma (y # ys)"

section \<open>The provider client (square.ts)\<close>

subsection \<open>Paged list requests\<close>

text \<open>
  One HTTP response to a list request: its status, the text of its body (read only when
  the request failed), and, for a JSON body, the records (\<^verbatim>\<open>data.payments\<close>,
  \<^verbatim>\<open>data.objects\<close>, \<^verbatim>\<open>data.counts\<close>) and \<^verbatim>\<open>data.cursor\<close>.
  \<^verbatim>\<open>res.ok\<close> is a status from 200 to 299.
\<close>

record 'a ListResponse =
  res_status :: nat
  res_text :: string
  res_records :: "'a list option"
  res_cursor :: "string option"

definition res_ok :: "('a, 'b) ListResponse_scheme \<Rightarrow> bool" where
  "res_ok res = (200 \<le> res_status res \<and> res_status res \<le> 299)"

text \<open>
  The errors the source throws: a failed request (status and body), a payment without
  money fields (its id), a statement the store refuses.
\<close>

datatype etl_error =
    RequestFailed nat string
  | NoMoneyFields "string option"
  | QueryFailed

text \<open>
  What a call that talks to the provider does: it returns a value, it throws, or it is
  still waiting for a response when the responses given to it end.
\<close>

datatype 'a outcome = Returned 'a | Thrown etl_error | Awaiting

text \<open>The cursor parameter of a request: set only when the cursor is truthy.\<close>

definition request_cursor :: "string option \<Rightarrow> string option" where
  "request_cursor cursor = (if truthy cursor then cursor else None)"

text \<open>
  The \<^verbatim>\<open>do { ... } while (cursor)\<close> loop, which the four list fetches share word for
  word. The provider is the list of its responses, in the order of the requests; the loop
  takes one per request. The result is the log of the requests issued (the cursor each one
  carried) and the outcome. \<^verbatim>\<open>continue\<close> in a \<^verbatim>\<open>do ... while\<close> goes to the
  test \<^verbatim>\<open>while (cursor)\<close>, with the cursor as it was before the request.
\<close>

fun fetch_loop ::
  "'a ListResponse list \<Rightarrow> string option \<Rightarrow> 'a list \<Rightarrow> string option list \<times> 'a list outcome"
where
  "fetch_loop [] cursor all = ([request_cursor cursor], Awaiting)"
| "fetch_loop (res # rest) cursor all =
     apfst ((#) (request_cursor cursor))
       (if res_status res = 429 then
          (if truthy cursor then fetch_loop rest cursor all else ([], Returned all))
        else if \<not> res_ok res then ([], Thrown (RequestFailed (res_status res) (res_text res)))
        else
          let all' = (case res_records res of
                        None \<Rightarrow> all
                      | Some recs \<Rightarrow> if length recs > 0 then all @ recs else all);
              cursor' = res_cursor res
          in if truthy cursor' then fetch_loop rest cursor' all' else ([], Returned all'))"

subsection \<open>Provider records\<close>

text \<open>
  The records are unchecked JSON (\<^verbatim>\<open>(await res.json()) as PaymentsResponse\<close>), and
  the mappers test ids that the interfaces declare required (\<^verbatim>\<open>!category.id\<close>), so
  every id is optional here. A JSON number is kept as a rational.
\<close>

record SquareMoney =
  amount :: rat
  currency :: string

record SquarePayment =
  p_id :: "string option"
  p_created_at :: string
  p_updated_at :: "string option"
  p_location_id :: "string option"
  p_order_id :: "string option"
  p_status :: "string option"
  p_customer_id :: "string option"
  p_reference_id :: "string option"
  p_amount_money :: "SquareMoney option"
  p_total_money :: "SquareMoney option"

record SquareLineItem =
  li_uid :: "string option"
  li_name :: "string option"
  li_catalog_object_id :: "string option"
  li_quantity :: "jsstring option"
  li_base_price_money :: "SquareMoney option"
  li_total_money :: "SquareMoney option"

record SquareOrder =
  o_id :: "string option"
  o_location_id :: "string option"
  o_line_items :: "SquareLineItem list option"

text \<open>
  \<^verbatim>\<open>item_data\<close> as the interface declares it (\<open>name\<close>, \<open>categories\<close>), and the
  property \<open>category_id\<close>, which the interface does not declare and the catalog ETL
  reads.
\<close>

record CategoryRef =
  cref_id :: string
  cref_ordinal :: "rat option"

record ItemData =
  item_name :: "string option"
  item_categories :: "CategoryRef list option"
  item_category_id :: "string option"

record ItemVariationData =
  var_name :: "string option"
  var_sku :: "string option"
  var_item_id :: "string option"

record SquareCatalogObject =
  co_id :: "string option"
  co_type :: string
  co_is_deleted :: "bool option"
  co_item_data :: "ItemData option"
  co_item_variation_data :: "ItemVariationData option"

record SquareInventoryCount =
  ic_catalog_object_id :: "string option"
  ic_catalog_object_type :: "string option"
  ic_state :: "string option"
  ic_location_id :: "string option"
  ic_quantity :: "jsstring option"
  ic_calculated_at :: "string option"

record ParentCategory =
  pc_ordinal :: "rat option"

record CategoryData =
  cat_name :: "string option"
  cat_parent_category :: "ParentCategory option"
  cat_is_top_level :: "bool option"

record SquareCategoryObject =
  cg_id :: "string option"
  cg_type :: string
  cg_is_deleted :: "bool option"
  cg_category_data :: "CategoryData option"

subsection \<open>The four paged fetches\<close>

text \<open>
  Each starts the loop with no cursor and no records. The time window and the types
  asked for go into every request of a fetch unchanged; the responses are the provider's
  answers to them.
\<close>

definition fetchPaymentsPaged ::
  "SquarePayment ListResponse list \<Rightarrow> string option list \<times> SquarePayment list outcome" where
  "fetchPaymentsPaged responses = fetch_loop responses None []"

definition fetchCatalogObjects ::
  "SquareCatalogObject ListResponse list \<Rightarrow>
     string option list \<times> SquareCatalogObject list outcome" where
  "fetchCatalogObjects responses = fetch_loop responses None []"

definition fetchInventoryCounts ::
  "SquareInventoryCount ListResponse list \<Rightarrow>
     string option list \<times> SquareInventoryCount list outcome" where
  "fetchInventoryCounts responses = fetch_loop responses None []"

definition fetchCategories ::
  "SquareCategoryObject ListResponse list \<Rightarrow>
     string option list \<times> SquareCategoryObject list outcome" where
  "fetchCategories responses = fetch_loop responses None []"

subsection \<open>One order by id\<close>

record OrderResponse =
  ores_status :: nat
  ores_text :: string
  ores_order :: "SquareOrder option"

definition ores_ok :: "OrderResponse \<Rightarrow> bool" where
  "ores_ok res = (200 \<le> ores_status res \<and> ores_status res \<le> 299)"

text \<open>
  \<^verbatim>\<open>fetchOrder\<close> calls itself again after a 429. The argument is the list of the
  provider's responses to the successive requests for this order.
\<close>

fun fetchOrder :: "OrderResponse list \<Rightarrow> SquareOrder option outcome" where
  "fetchOrder [] = Awaiting"
| "fetchOrder (res # rest) =
     (if ores_status res = 429 then fetchOrder rest
      else if ores_status res = 404 then Returned None
      else if \<not> ores_ok res then
        Thrown (RequestFailed (ores_status res) (ores_text res))
      else (case ores_order res of
              None \<Rightarrow> Returned None
            | Some order \<Rightarrow> Returned (Some order)))"

section \<open>Numbers from text: \<^verbatim>\<open>parseFloat\<close>\<close>

text \<open>
  A JavaScript number as the mappers test it: not a number, an infinity, or finite. The
  finite value is kept as the decimal the text denotes; JavaScript holds the double
  nearest to it. Rounding to a double changes what the mappers test in two places only,
  which \<open>toNumber\<close> writes out: from \<open>2^1024 - 2^970\<close> on the double is an
  infinity, and up to \<open>2^-1075\<close> it is zero. Negative zero is zero.
\<close>

datatype jsnum = NaN | PosInfinity | NegInfinity | Finite rat

definition toNumber :: "rat \<Rightarrow> jsnum" where
  "toNumber v =
     (if 2 ^ 1024 - 2 ^ 970 \<le> v then PosInfinity
      else if v \<le> - (2 ^ 1024 - 2 ^ 970) then NegInfinity
      else if \<bar>v\<bar> \<le> 1 / 2 ^ 1075 then Finite 0
      else Finite v)"

definition isFinite :: "jsnum \<Rightarrow> bool" where
  "isFinite q = (case q of Finite v \<Rightarrow> True | _ \<Rightarrow> False)"

text \<open>\<^verbatim>\<open>q <= 0\<close>: false for NaN.\<close>

definition le_zero :: "jsnum \<Rightarrow> bool" where
  "le_zero q = (case q of Finite v \<Rightarrow> v \<le> 0 | NegInfinity \<Rightarrow> True | _ \<Rightarrow> False)"

text \<open>
  The code units that \<^verbatim>\<open>parseFloat\<close> skips at the start of the text, which are the
  white space and the line terminators of ECMAScript: TAB, LF, VT, FF, CR, SPACE, the
  no-break space U+00A0, U+1680, U+2000 to U+200A, the line and paragraph separators
  U+2028 and U+2029, U+202F, U+205F, U+3000 and the byte order mark U+FEFF.
\<close>

definition isWhiteSpace :: "nat \<Rightarrow> bool" where
  "isWhiteSpace c =
     (c \<in> {9, 10, 11, 12, 13, 32, 160, 5760, 8232, 8233, 8239, 8287, 12288, 65279}
      \<or> (8192 \<le> c \<and> c \<le> 8202))"

text \<open>The digits are \<open>0\<close> to \<open>9\<close> of ASCII only.\<close>

definition isDecimalDigit :: "nat \<Rightarrow> bool" where
  "isDecimalDigit c = (48 \<le> c \<and> c \<le> 57)"

definition digitsValue :: "jsstring \<Rightarrow> nat" where
  "digitsValue ds = foldl (\<lambda>a c. 10 * a + (c - 48)) 0 ds"

text \<open>\<open>m \<times> 10^e\<close> for an integer exponent.\<close>

definition scale10 :: "nat \<Rightarrow> int \<Rightarrow> rat" where
  "scale10 m e = (if 0 \<le> e then of_nat m * 10 ^ nat e else of_nat m / 10 ^ nat (- e))"

text \<open>
  The exponent part after the mantissa: \<open>e\<close> or \<open>E\<close>, an optional sign, and at least
  one digit; anything else is not part of the number.
\<close>

definition exponentPart :: "jsstring \<Rightarrow> int" where
  "exponentPart rest =
     (case rest of
        [] \<Rightarrow> 0
      | c # cs \<Rightarrow>
          if c = of_char CHR ''e'' \<or> c = of_char CHR ''E'' then
            (case cs of
               [] \<Rightarrow> 0
             | d # ds \<Rightarrow>
                 if d = of_char CHR ''-'' then
                   (if takeWhile isDecimalDigit ds = [] then 0
                    else - int (digitsValue (takeWhile isDecimalDigit ds)))
                 else if d = of_char CHR ''+'' then int (digitsValue (takeWhile isDecimalDigit ds))
                 else int (digitsValue (takeWhile isDecimalDigit cs)))
          else 0)"

text \<open>
  \<^verbatim>\<open>parseFloat\<close>: leading white space is dropped, and the longest prefix of the rest
  that is a decimal literal (a sign, then \<open>Infinity\<close>, or digits with an optional
  fraction and exponent) gives the number; the text after it is ignored. There is no
  such prefix when the text does not begin, after the sign, with \<open>Infinity\<close>, a digit,
  or a point and a digit: the result is NaN.
\<close>

definition parseUnsigned :: "jsstring \<Rightarrow> rat option" where
  "parseUnsigned u =
     (let intPart = takeWhile isDecimalDigit u;
          afterInt = dropWhile isDecimalDigit u;
          hasPoint = (case afterInt of [] \<Rightarrow> False | c # cs \<Rightarrow> c = of_char CHR ''.'');
          fracPart = (if hasPoint then takeWhile isDecimalDigit (tl afterInt) else []);
          afterMantissa =
            (if intPart = [] \<and> fracPart = [] then []
             else if hasPoint then dropWhile isDecimalDigit (tl afterInt)
             else afterInt)
      in if intPart = [] \<and> fracPart = [] then None
         else Some (scale10 (digitsValue (intPart @ fracPart))
                      (exponentPart afterMantissa - int (length fracPart))))"

definition parseFloat :: "jsstring \<Rightarrow> jsnum" where
  "parseFloat input =
     (let trimmed = dropWhile isWhiteSpace input;
          negative = (case trimmed of [] \<Rightarrow> False | c # cs \<Rightarrow> c = of_char CHR ''-'');
          unsigned = (case trimmed of
                        [] \<Rightarrow> []
                      | c # cs \<Rightarrow>
                          if c = of_char CHR ''-'' \<or> c = of_char CHR ''+'' then cs
                          else trimmed)
      in if take 8 unsigned = ascii ''Infinity'' then
           (if negative then NegInfinity else PosInfinity)
         else (case parseUnsigned unsigned of
                 None \<Rightarrow> NaN
               | Some v \<Rightarrow> toNumber (if negative then - v else v)))"

section \<open>Locations (etl-square-locations.ts)\<close>

record SquareAddress =
  address_line_1 :: "string option"
  locality :: "string option"
  administrative_district_level_1 :: "string option"
  postal_code :: "string option"

record SquareLocation =
  loc_id :: "string option"
  loc_name :: "string option"
  loc_address :: "SquareAddress option"
  loc_timezone :: "string option"
  loc_status :: "string option"

text \<open>The row keeps the record it was made from where the source keeps its JSON text.\<close>

record LocationRow =
  lr_location_id :: string
  lr_location_name :: string
  lr_address :: "string option"
  lr_timezone :: "string option"
  lr_status :: "string option"
  lr_raw_payload :: SquareLocation

definition addressParts :: "SquareAddress option \<Rightarrow> string list" where
  "addressParts addr =
     map the (filter truthy
       [Option.bind addr address_line_1,
        Option.bind addr locality,
        Option.bind addr administrative_district_level_1,
        Option.bind addr postal_code])"

definition mapLocationToRow :: "SquareLocation \<Rightarrow> LocationRow option" where
  "mapLocationToRow location =
     (if \<not> truthy (loc_id location) \<or> \<not> truthy (loc_name location) then None
      else
        let parts = addressParts (loc_address location);
            addressString = (if length parts > 0 then Some (join_comma parts) else None)
        in Some \<lparr> lr_location_id = the (loc_id location),
                  lr_location_name = the (loc_name location),
                  lr_address = addressString,
                  lr_timezone = loc_timezone location,
                  lr_status = loc_status location,
                  lr_raw_payload = location \<rparr>)"

text \<open>The loop of \<^verbatim>\<open>main\<close>: map every record, push the rows that are not null.\<close>

definition locationRows :: "SquareLocation list \<Rightarrow> LocationRow list" where
  "locationRows locations = List.map_filter mapLocationToRow locations"

section \<open>Categories (etl-square-categories.ts)\<close>

record CategoryRow =
  cr_category_id :: string
  cr_category_name :: string
  cr_parent_category_id :: "string option"
  cr_is_top_level :: bool
  cr_is_deleted :: bool
  cr_raw_payload :: SquareCategoryObject



section \<open>Catalog (etl-square-catalog.ts, the version that carries the category id)\<close>

record CatalogRow =
  kr_catalog_object_id :: "string option"
  kr_object_type :: string
  kr_item_name :: "string option"
  kr_variation_name :: "string option"
  kr_sku :: "string option"
  kr_category_id :: "string option"
  kr_is_deleted :: bool
  kr_raw_payload :: SquareCatalogObject

text \<open>\<^verbatim>\<open>a ?? b\<close>\<close>

definition orElse :: "'a option \<Rightarrow> 'a option \<Rightarrow> 'a option" where
  "orElse a b = (case a of None \<Rightarrow> b | Some x \<Rightarrow> Some x)"

definition mapVariationToRow ::
  "SquareCatalogObject \<Rightarrow> string option \<Rightarrow> string option \<Rightarrow> CatalogRow option" where
  "mapVariationToRow variation parentName parentCategoryId =
     (if \<not> truthy (co_id variation) then None
      else
        let isDeleted = (co_is_deleted variation = Some True);
            variationName = Option.bind (co_item_variation_data variation) var_name;
            sku = Option.bind (co_item_variation_data variation) var_sku;
            itemName = orElse parentName (orElse variationName None)
        in Some \<lparr> kr_catalog_object_id = co_id variation,
                  kr_object_type = co_type variation,
                  kr_item_name = itemName,
                  kr_variation_name = variationName,
                  kr_sku = sku,
                  kr_category_id = parentCategoryId,
                  kr_is_deleted = isDeleted,
                  kr_raw_payload = variation \<rparr>)"

text \<open>
  The first loop of \<^verbatim>\<open>main\<close>: the two maps from the id of an ITEM to its name and
  to its category id. A later \<^verbatim>\<open>set\<close> of the same id replaces the earlier one.
\<close>

fun itemNameById :: "SquareCatalogObject list \<Rightarrow> (string \<rightharpoonup> string) \<Rightarrow> (string \<rightharpoonup> string)" where
  "itemNameById [] m = m"
| "itemNameById (obj # objects) m =
     itemNameById objects
       (if co_type obj = ''ITEM'' then
          (let name = Option.bind (co_item_data obj) item_name
           in if truthy (co_id obj) \<and> truthy name
              then m(the (co_id obj) \<mapsto> the name) else m)
        else m)"

fun itemCategoryById :: "SquareCatalogObject list \<Rightarrow> (string \<rightharpoonup> string) \<Rightarrow> (string \<rightharpoonup> string)" where
  "itemCategoryById [] m = m"
| "itemCategoryById (obj # objects) m =
     itemCategoryById objects
       (if co_type obj = ''ITEM'' then
          (let categoryId = Option.bind (co_item_data obj) item_category_id
           in if truthy (co_id obj) \<and> truthy categoryId
              then m(the (co_id obj) \<mapsto> the categoryId) else m)
        else m)"

text \<open>The body of the second loop, for one ITEM_VARIATION.\<close>

definition variationRow ::
  "(string \<rightharpoonup> string) \<Rightarrow> (string \<rightharpoonup> string) \<Rightarrow> SquareCatalogObject \<Rightarrow> CatalogRow option" where
  "variationRow names categories obj =
     (let parentItemId = Option.bind (co_item_variation_data obj) var_item_id;
          parentName = (if truthy parentItemId then names (the parentItemId) else None);
          parentCategoryId =
            (if truthy parentItemId then categories (the parentItemId) else None)
      in mapVariationToRow obj parentName parentCategoryId)"

text \<open>The body of the third loop, for one ITEM: a row, with no test of the id.\<close>

definition itemRow :: "SquareCatalogObject \<Rightarrow> CatalogRow" where
  "itemRow obj =
     \<lparr> kr_catalog_object_id = co_id obj,
       kr_object_type = co_type obj,
       kr_item_name = Option.bind (co_item_data obj) item_name,
       kr_variation_name = None,
       kr_sku = None,
       kr_category_id = Option.bind (co_item_data obj) item_category_id,
       kr_is_deleted = (case co_is_deleted obj of None \<Rightarrow> False | Some b \<Rightarrow> b),
       kr_raw_payload = obj \<rparr>"

definition catalogRows :: "SquareCatalogObject list \<Rightarrow> CatalogRow list" where
  "catalogRows objects =
     (let names = itemNameById objects Map.empty;
          categories = itemCategoryById objects Map.empty
      in List.map_filter (variationRow names categories)
           (filter (\<lambda>obj. co_type obj = ''ITEM_VARIATION'') objects)
         @ map itemRow (filter (\<lambda>obj. co_type obj = ''ITEM'') objects))"

section \<open>Inventory (etl-square-inventory.ts)\<close>

text \<open>\<^verbatim>\<open>const quantityStr = count.quantity ?? "0"\<close>, the same in both quantity mappers.\<close>

definition quantityStr :: "jsstring option \<Rightarrow> jsstring" where
  "quantityStr quantity = (case quantity of None \<Rightarrow> ascii ''0'' | Some q \<Rightarrow> q)"

text \<open>
  \<open>ir_quantity\<close> is the finite number parsed. \<^verbatim>\<open>new Date(count.calculated_at)\<close> is
  kept as the text it is made from.
\<close>

record InventoryRow =
  ir_catalog_object_id :: string
  ir_catalog_object_type :: "string option"
  ir_location_id :: "string option"
  ir_state :: string
  ir_quantity :: rat
  ir_calculated_at :: "string option"
  ir_raw_payload :: SquareInventoryCount

definition finiteValue :: "jsnum \<Rightarrow> rat" where
  "finiteValue q = (case q of Finite v \<Rightarrow> v | _ \<Rightarrow> 0)"

definition mapInventoryCountToRow :: "SquareInventoryCount \<Rightarrow> InventoryRow option" where
  "mapInventoryCountToRow count =
     (if \<not> truthy (ic_catalog_object_id count) then None
      else
        let quantity = parseFloat (quantityStr (ic_quantity count))
        in if \<not> isFinite quantity then None
           else
             let calculatedAt =
                   (if truthy (ic_calculated_at count) then ic_calculated_at count else None)
             in Some \<lparr> ir_catalog_object_id = the (ic_catalog_object_id count),
                       ir_catalog_object_type = ic_catalog_object_type count,
                       ir_location_id = ic_location_id count,
                       ir_state = (case ic_state count of None \<Rightarrow> ''UNKNOWN'' | Some st \<Rightarrow> st),
                       ir_quantity = finiteValue quantity,
                       ir_calculated_at = calculatedAt,
                       ir_raw_payload = count \<rparr>)"

definition inventoryRows :: "SquareInventoryCount list \<Rightarrow> InventoryRow list" where
  "inventoryRows counts = List.map_filter mapInventoryCountToRow counts"

section \<open>Payments (etl-square-payments.ts)\<close>

record PaymentRow =
  pr_payment_id :: "string option"
  pr_order_id :: "string option"
  pr_location_id :: "string option"
  pr_created_at :: string
  pr_updated_at :: "string option"
  pr_amount :: rat
  pr_currency :: string
  pr_status :: "string option"
  pr_customer_id :: "string option"
  pr_reference_id :: "string option"
  pr_raw_payload :: SquarePayment

definition mapPaymentToRow :: "SquarePayment \<Rightarrow> etl_error + PaymentRow" where
  "mapPaymentToRow p =
     (case orElse (p_total_money p) (p_amount_money p) of
        None \<Rightarrow> Inl (NoMoneyFields (p_id p))
      | Some money \<Rightarrow>
          Inr \<lparr> pr_payment_id = p_id p,
                pr_order_id = p_order_id p,
                pr_location_id = p_location_id p,
                pr_created_at = p_created_at p,
                pr_updated_at = p_updated_at p,
                pr_amount = amount money,
                pr_currency = currency money,
                pr_status = p_status p,
                pr_customer_id = p_customer_id p,
                pr_reference_id = p_reference_id p,
                pr_raw_payload = p \<rparr>)"

section \<open>Order line items (etl-square-orders.ts)\<close>

record OrderItemRow =
  or_order_id :: "string option"
  or_payment_id :: "string option"
  or_line_item_uid :: string
  or_catalog_object_id :: "string option"
  or_item_name :: "string option"
  or_sku :: "string option"
  or_quantity :: rat
  or_base_price_amount :: "rat option"
  or_total_money_amount :: "rat option"
  or_currency :: "string option"
  or_location_id :: "string option"
  or_raw_payload :: SquareLineItem

definition mapLineItemToRow ::
  "SquareOrder \<Rightarrow> string option \<Rightarrow> SquareLineItem \<Rightarrow> OrderItemRow option" where
  "mapLineItemToRow order paymentId lineItem =
     (let uid = li_uid lineItem in
      if \<not> truthy uid then None
      else
        let quantity = parseFloat (quantityStr (li_quantity lineItem))
        in if \<not> isFinite quantity \<or> le_zero quantity then None
           else
             let baseAmount = map_option amount (li_base_price_money lineItem);
                 totalAmount = map_option amount (li_total_money lineItem);
                 currency = orElse (map_option currency (li_base_price_money lineItem))
                              (orElse (map_option currency (li_total_money lineItem)) None)
             in Some \<lparr> or_order_id = o_id order,
                       or_payment_id = paymentId,
                       or_line_item_uid = the uid,
                       or_catalog_object_id = li_catalog_object_id lineItem,
                       or_item_name = li_name lineItem,
                       or_sku = None,
                       or_quantity = finiteValue quantity,
                       or_base_price_amount = baseAmount,
                       or_total_money_amount = totalAmount,
                       or_currency = currency,
                       or_location_id = o_location_id order,
                       or_raw_payload = lineItem \<rparr>)"

text \<open>
  \<^verbatim>\<open>orderToPayment\<close> is a JavaScript Map, whose keys come out in the order they were
  first set: an association list, extended at its end.
\<close>

fun orderToPayment ::
  "SquarePayment list \<Rightarrow> (string \<times> string option) list \<Rightarrow> (string \<times> string option) list" where
  "orderToPayment [] m = m"
| "orderToPayment (p # payments) m =
     orderToPayment payments
       (if truthy (p_order_id p) then
          (if map_of m (the (p_order_id p)) = None
           then m @ [(the (p_order_id p), p_id p)] else m)
        else m)"

definition uniqueOrderIds :: "(string \<times> string option) list \<Rightarrow> string list" where
  "uniqueOrderIds m = map fst m"

text \<open>The rows of one fetched order: the inner part of the loop body.\<close>

definition orderRows :: "SquareOrder option \<Rightarrow> string option \<Rightarrow> OrderItemRow list" where
  "orderRows fetched paymentId =
     (case fetched of
        None \<Rightarrow> []
      | Some order \<Rightarrow>
          (case o_line_items order of
             None \<Rightarrow> []
           | Some items \<Rightarrow>
               if length items = 0 then []
               else List.map_filter (mapLineItemToRow order paymentId) items))"

text \<open>
  The loop over \<^verbatim>\<open>uniqueOrderIds\<close>. \<open>provider orderId\<close> is the list of the
  provider's responses to the successive requests for that order. The result is the log
  of the calls of \<^verbatim>\<open>fetchOrder\<close> and the rows, or what stopped the loop.
\<close>

fun ordersLoop ::
  "(string \<times> string option) list \<Rightarrow> (string \<Rightarrow> OrderResponse list) \<Rightarrow> string list \<Rightarrow>
     OrderItemRow list \<Rightarrow> string list \<times> OrderItemRow list outcome" where
  "ordersLoop m provider [] allRows = ([], Returned allRows)"
| "ordersLoop m provider (orderId # ids) allRows =
     apfst ((#) orderId)
       (let paymentId = (case map_of m orderId of None \<Rightarrow> None | Some pid \<Rightarrow> pid)
        in case fetchOrder (provider orderId) of
             Awaiting \<Rightarrow> ([], Awaiting)
           | Thrown e \<Rightarrow> ([], Thrown e)
           | Returned fetched \<Rightarrow>
               ordersLoop m provider ids (allRows @ orderRows fetched paymentId))"

definition orderItemRows ::
  "SquarePayment list \<Rightarrow> (string \<Rightarrow> OrderResponse list) \<Rightarrow>
     string list \<times> OrderItemRow list outcome" where
  "orderItemRows payments provider =
     (let m = orderToPayment payments []
      in ordersLoop m provider (uniqueOrderIds m) [])"

section \<open>The store and the upsert writers\<close>

subsection \<open>Tables and the upsert statement\<close>

text \<open>
  A value sent to or held by the store. \<open>Json\<close> is the raw payload, kept as the record
  it serialises; \<^verbatim>\<open>null\<close> and \<^verbatim>\<open>undefined\<close> are sent as \<open>Null\<close>.
\<close>

datatype 'p sqlval = Null | Text string | Number rat | Boolean bool | Timestamp nat | Json 'p

definition optText :: "string option \<Rightarrow> 'p sqlval" where
  "optText v = (case v of None \<Rightarrow> Null | Some t \<Rightarrow> Text t)"

definition optNumber :: "rat option \<Rightarrow> 'p sqlval" where
  "optNumber v = (case v of None \<Rightarrow> Null | Some n \<Rightarrow> Number n)"

type_synonym column = string

type_synonym 'p dbrow = "column \<rightharpoonup> 'p sqlval"

text \<open>
  Modelled from the spec: the definitions of the tables (the DDL) are not in the source.
  The spec has each table "keyed by the natural key" that the statement names as its
  conflict target, so a table is a map from the values of the conflict columns to the
  row that holds them; a null in a conflict column is a key value like any other.
\<close>

type_synonym 'p table = "'p sqlval list \<rightharpoonup> 'p dbrow"

text \<open>
  An \<^verbatim>\<open>INSERT ... ON CONFLICT (...) DO UPDATE SET ...\<close> statement of the source: the
  columns inserted, the conflict target, the columns set to \<^verbatim>\<open>EXCLUDED.column\<close>, and
  whether \<^verbatim>\<open>updated_at = CURRENT_TIMESTAMP\<close> is among the assignments.
\<close>

record upsert_stmt =
  insert_cols :: "column list"
  conflict_cols :: "column list"
  update_cols :: "column list"
  refresh_updated_at :: bool

definition excluded :: "upsert_stmt \<Rightarrow> 'p sqlval list \<Rightarrow> 'p dbrow" where
  "excluded st vals = map_of (zip (insert_cols st) vals)"

definition conflict_key :: "upsert_stmt \<Rightarrow> 'p dbrow \<Rightarrow> 'p sqlval list" where
  "conflict_key st row =
     map (\<lambda>c. case row c of None \<Rightarrow> Null | Some v \<Rightarrow> v) (conflict_cols st)"

text \<open>What \<^verbatim>\<open>DO UPDATE SET\<close> makes of the row found, at the time \<open>now\<close>.\<close>

definition do_update :: "upsert_stmt \<Rightarrow> nat \<Rightarrow> 'p dbrow \<Rightarrow> 'p dbrow \<Rightarrow> 'p dbrow" where
  "do_update st now row old =
     (let new = old ++ (row |` set (update_cols st))
      in if refresh_updated_at st then new(''updated_at'' \<mapsto> Timestamp now) else new)"

text \<open>
  \<^verbatim>\<open>client.query(text, values)\<close>. \<open>accepts\<close> stands for the constraints of the
  table, which are not in the source: a row it refuses makes the statement fail. A
  column the statement does not insert is left to the table's default, which is not in
  the source either, so the new row holds the inserted columns only.
\<close>

definition query_upsert ::
  "('p dbrow \<Rightarrow> bool) \<Rightarrow> upsert_stmt \<Rightarrow> nat \<Rightarrow> 'p sqlval list \<Rightarrow> 'p table \<Rightarrow>
     etl_error + 'p table" where
  "query_upsert accepts st now vals tbl =
     (let row = excluded st vals; k = conflict_key st row
      in if \<not> accepts row then Inl QueryFailed
         else (case tbl k of
                 None \<Rightarrow> Inr (tbl(k \<mapsto> row))
               | Some old \<Rightarrow> Inr (tbl(k \<mapsto> do_update st now row old))))"

text \<open>The \<^verbatim>\<open>for (const row of rows)\<close> loop of a writer: the first failure ends it.\<close>

fun query_all ::
  "('p dbrow \<Rightarrow> bool) \<Rightarrow> upsert_stmt \<Rightarrow> nat \<Rightarrow> 'p sqlval list list \<Rightarrow> 'p table \<Rightarrow>
     etl_error + 'p table" where
  "query_all accepts st now [] tbl = Inr tbl"
| "query_all accepts st now (vals # rest) tbl =
     (case query_upsert accepts st now vals tbl of
        Inl e \<Rightarrow> Inl e
      | Inr tbl' \<Rightarrow> query_all accepts st now rest tbl')"

text \<open>
  \<^verbatim>\<open>BEGIN\<close> ... \<^verbatim>\<open>COMMIT\<close>, with \<^verbatim>\<open>ROLLBACK\<close> and \<^verbatim>\<open>throw err\<close> in the
  \<^verbatim>\<open>catch\<close>: the table after the call, and the error thrown to the caller if any.
\<close>

definition transaction ::
  "('p table \<Rightarrow> etl_error + 'p table) \<Rightarrow> 'p table \<Rightarrow> 'p table \<times> etl_error option" where
  "transaction body tbl =
     (case body tbl of
        Inl e \<Rightarrow> (tbl, Some e)
      | Inr tbl' \<Rightarrow> (tbl', None))"

text \<open>The tenant scope, read from the environment once.\<close>

record config =
  TENANT_ID :: string
  POS_PROVIDER :: string
  POS_PROVIDER_ACCOUNT_ID :: string

subsection \<open>The six statements\<close>

definition locations_stmt :: upsert_stmt where
  "locations_stmt =
     \<lparr> insert_cols = [''tenant_id'', ''provider'', ''provider_account_id'', ''location_id'',
         ''location_name'', ''address'', ''timezone'', ''status'', ''raw_payload''],
       conflict_cols = [''tenant_id'', ''provider'', ''provider_account_id'', ''location_id''],
       update_cols = [''location_name'', ''address'', ''timezone'', ''status'', ''raw_payload''],
       refresh_updated_at = True \<rparr>"

definition categories_stmt :: upsert_stmt where
  "categories_stmt =
     \<lparr> insert_cols = [''tenant_id'', ''provider'', ''provider_account_id'', ''category_id'',
         ''category_name'', ''parent_category_id'', ''is_top_level'', ''is_deleted'',
         ''raw_payload''],
       conflict_cols = [''tenant_id'', ''provider'', ''provider_account_id'', ''category_id''],
       update_cols = [''category_name'', ''parent_category_id'', ''is_top_level'',
         ''is_deleted'', ''raw_payload''],
       refresh_updated_at = True \<rparr>"

definition catalog_stmt :: upsert_stmt where
  "catalog_stmt =
     \<lparr> insert_cols = [''tenant_id'', ''provider'', ''provider_account_id'',
         ''catalog_object_id'', ''object_type'', ''item_name'', ''variation_name'', ''sku'',
         ''category_id'', ''is_deleted'', ''raw_payload''],
       conflict_cols = [''tenant_id'', ''provider'', ''provider_account_id'',
         ''catalog_object_id''],
       update_cols = [''object_type'', ''item_name'', ''variation_name'', ''sku'',
         ''category_id'', ''is_deleted'', ''raw_payload''],
       refresh_updated_at = False \<rparr>"

definition inventory_stmt :: upsert_stmt where
  "inventory_stmt =
     \<lparr> insert_cols = [''tenant_id'', ''provider'', ''provider_account_id'',
         ''catalog_object_id'', ''catalog_object_type'', ''location_id'', ''state'',
         ''quantity'', ''calculated_at'', ''raw_payload''],
       conflict_cols = [''tenant_id'', ''provider'', ''provider_account_id'',
         ''catalog_object_id'', ''location_id'', ''state''],
       update_cols = [''catalog_object_type'', ''quantity'', ''calculated_at'',
         ''raw_payload''],
       refresh_updated_at = True \<rparr>"

definition payments_stmt :: upsert_stmt where
  "payments_stmt =
     \<lparr> insert_cols = [''tenant_id'', ''provider'', ''provider_account_id'', ''payment_id'',
         ''order_id'', ''location_id'', ''created_at'', ''updated_at'', ''amount'',
         ''currency'', ''status'', ''customer_id'', ''reference_id'', ''raw_payload''],
       conflict_cols = [''tenant_id'', ''provider'', ''payment_id''],
       update_cols = [''provider_account_id'', ''order_id'', ''location_id'', ''created_at'',
         ''updated_at'', ''amount'', ''currency'', ''status'', ''customer_id'',
         ''reference_id'', ''raw_payload''],
       refresh_updated_at = False \<rparr>"

definition order_items_stmt :: upsert_stmt where
  "order_items_stmt =
     \<lparr> insert_cols = [''tenant_id'', ''provider'', ''provider_account_id'', ''order_id'',
         ''payment_id'', ''line_item_uid'', ''catalog_object_id'', ''item_name'', ''sku'',
         ''quantity'', ''base_price_amount'', ''total_money_amount'', ''currency'',
         ''location_id'', ''raw_payload''],
       conflict_cols = [''tenant_id'', ''provider'', ''order_id'', ''line_item_uid''],
       update_cols = [''provider_account_id'', ''payment_id'', ''catalog_object_id'',
         ''item_name'', ''sku'', ''quantity'', ''base_price_amount'', ''total_money_amount'',
         ''currency'', ''location_id'', ''raw_payload''],
       refresh_updated_at = False \<rparr>"

subsection \<open>The values of a row, in the order of the statement's parameters\<close>

definition location_values :: "config \<Rightarrow> LocationRow \<Rightarrow> SquareLocation sqlval list" where
  "location_values cfg row =
     [Text (TENANT_ID cfg), Text (POS_PROVIDER cfg), Text (POS_PROVIDER_ACCOUNT_ID cfg),
      Text (lr_location_id row), Text (lr_location_name row), optText (lr_address row),
      optText (lr_timezone row), optText (lr_status row), Json (lr_raw_payload row)]"

definition category_values :: "config \<Rightarrow> CategoryRow \<Rightarrow> SquareCategoryObject sqlval list" where
  "category_values cfg row =
     [Text (TENANT_ID cfg), Text (POS_PROVIDER cfg), Text (POS_PROVIDER_ACCOUNT_ID cfg),
      Text (cr_category_id row), Text (cr_category_name row),
      optText (cr_parent_category_id row), Boolean (cr_is_top_level row),
      Boolean (cr_is_deleted row), Json (cr_raw_payload row)]"

definition catalog_values :: "config \<Rightarrow> CatalogRow \<Rightarrow> SquareCatalogObject sqlval list" where
  "catalog_values cfg row =
     [Text (TENANT_ID cfg), Text (POS_PROVIDER cfg), Text (POS_PROVIDER_ACCOUNT_ID cfg),
      optText (kr_catalog_object_id row), Text (kr_object_type row),
      optText (kr_item_name row), optText (kr_variation_name row), optText (kr_sku row),
      optText (kr_category_id row), Boolean (kr_is_deleted row), Json (kr_raw_payload row)]"

definition inventory_values :: "config \<Rightarrow> InventoryRow \<Rightarrow> SquareInventoryCount sqlval list" where
  "inventory_values cfg row =
     [Text (TENANT_ID cfg), Text (POS_PROVIDER cfg), Text (POS_PROVIDER_ACCOUNT_ID cfg),
      Text (ir_catalog_object_id row), optText (ir_catalog_object_type row),
      optText (ir_location_id row), Text (ir_state row), Number (ir_quantity row),
      optText (ir_calculated_at row), Json (ir_raw_payload row)]"

definition payment_values :: "config \<Rightarrow> PaymentRow \<Rightarrow> SquarePayment sqlval list" where
  "payment_values cfg row =
     [Text (TENANT_ID cfg), Text (POS_PROVIDER cfg), Text (POS_PROVIDER_ACCOUNT_ID cfg),
      optText (pr_payment_id row), optText (pr_order_id row), optText (pr_location_id row),
      Text (pr_created_at row), optText (pr_updated_at row), Number (pr_amount row),
      Text (pr_currency row), optText (pr_status row), optText (pr_customer_id row),
      optText (pr_reference_id row), Json (pr_raw_payload row)]"

definition order_item_values :: "config \<Rightarrow> OrderItemRow \<Rightarrow> SquareLineItem sqlval list" where
  "order_item_values cfg row =
     [Text (TENANT_ID cfg), Text (POS_PROVIDER cfg), Text (POS_PROVIDER_ACCOUNT_ID cfg),
      optText (or_order_id row), optText (or_payment_id row), Text (or_line_item_uid row),
      optText (or_catalog_object_id row), optText (or_item_name row), optText (or_sku row),
      Number (or_quantity row), optNumber (or_base_price_amount row),
      optNumber (or_total_money_amount row), optText (or_currency row),
      optText (or_location_id row), Json (or_raw_payload row)]"

subsection \<open>The writers\<close>

text \<open>
  A writer that takes rows: nothing is done for an empty batch; otherwise every row is
  written in one transaction. \<open>now\<close> is \<^verbatim>\<open>CURRENT_TIMESTAMP\<close>, the time the
  transaction began.
\<close>

definition upsertRows ::
  "upsert_stmt \<Rightarrow> ('r \<Rightarrow> 'p sqlval list) \<Rightarrow> ('p dbrow \<Rightarrow> bool) \<Rightarrow> nat \<Rightarrow> 'r list \<Rightarrow>
     'p table \<Rightarrow> 'p table \<times> etl_error option" where
  "upsertRows st values_of accepts now rows tbl =
     (if length rows = 0 then (tbl, None)
      else transaction (query_all accepts st now (map values_of rows)) tbl)"

definition upsertLocationRows where
  "upsertLocationRows cfg = upsertRows locations_stmt (location_values cfg)"

definition upsertCategoryRows where
  "upsertCategoryRows cfg = upsertRows categories_stmt (category_values cfg)"

definition upsertCatalogRows where
  "upsertCatalogRows cfg = upsertRows catalog_stmt (catalog_values cfg)"

definition upsertInventoryRows where
  "upsertInventoryRows cfg = upsertRows inventory_stmt (inventory_values cfg)"

definition upsertOrderItems where
  "upsertOrderItems cfg = upsertRows order_items_stmt (order_item_values cfg)"

text \<open>
  \<^verbatim>\<open>upsertPayments\<close> takes the payments and maps each one inside the loop, so inside
  the transaction.
\<close>

fun payments_loop ::
  "config \<Rightarrow> (SquarePayment dbrow \<Rightarrow> bool) \<Rightarrow> nat \<Rightarrow> SquarePayment list \<Rightarrow>
     SquarePayment table \<Rightarrow> etl_error + SquarePayment table" where
  "payments_loop cfg accepts now [] tbl = Inr tbl"
| "payments_loop cfg accepts now (p # payments) tbl =
     (case mapPaymentToRow p of
        Inl e \<Rightarrow> Inl e
      | Inr row \<Rightarrow>
          (case query_upsert accepts payments_stmt now (payment_values cfg row) tbl of
             Inl e \<Rightarrow> Inl e
           | Inr tbl' \<Rightarrow> payments_loop cfg accepts now payments tbl'))"

definition upsertPayments ::
  "config \<Rightarrow> (SquarePayment dbrow \<Rightarrow> bool) \<Rightarrow> nat \<Rightarrow> SquarePayment list \<Rightarrow>
     SquarePayment table \<Rightarrow> SquarePayment table \<times> etl_error option" where
  "upsertPayments cfg accepts now payments tbl =
     (if length payments = 0 then (tbl, None)
      else transaction (payments_loop cfg accepts now payments) tbl)"

section \<open>Notions used in the properties\<close>

subsection \<open>Pages\<close>

text \<open>
  A list of responses in which every request is answered in the end: each response is a
  429 or a success, a success with a cursor is followed by more, and the success without
  a cursor is the last response.
\<close>

fun well_paged :: "'a ListResponse list \<Rightarrow> bool" where
  "well_paged [] = False"
| "well_paged (res # rest) =
     (if res_status res = 429 then well_paged rest
      else res_ok res \<and> (if truthy (res_cursor res) then well_paged rest else rest = []))"

definition page_records :: "'a ListResponse \<Rightarrow> 'a list" where
  "page_records res = (case res_records res of None \<Rightarrow> [] | Some recs \<Rightarrow> recs)"

text \<open>The records of all pages, in page order.\<close>

definition all_pages :: "'a ListResponse list \<Rightarrow> 'a list" where
  "all_pages responses =
     concat (map page_records (filter (\<lambda>res. res_status res \<noteq> 429) responses))"

text \<open>
  The requests the spec asks for: each carries the cursor of the last success, and a 429
  leaves the cursor as it is.
\<close>

fun requests_of :: "'a ListResponse list \<Rightarrow> string option \<Rightarrow> string option list" where
  "requests_of [] cursor = []"
| "requests_of (res # rest) cursor =
     cursor # requests_of rest (if res_status res = 429 then cursor else res_cursor res)"

subsection \<open>Tables up to the refreshed timestamp\<close>

definition without_updated_at :: "upsert_stmt \<Rightarrow> 'p dbrow \<Rightarrow> 'p dbrow" where
  "without_updated_at st row =
     (if refresh_updated_at st then row(''updated_at'' := None) else row)"

definition modulo_updated_at :: "upsert_stmt \<Rightarrow> 'p table \<Rightarrow> 'p table" where
  "modulo_updated_at st tbl = (\<lambda>k. map_option (without_updated_at st) (tbl k))"

text \<open>What one statement does to the entry of its key.\<close>

definition key_of :: "upsert_stmt \<Rightarrow> 'p sqlval list \<Rightarrow> 'p sqlval list" where
  "key_of st vals = conflict_key st (excluded st vals)"

definition key_step ::
  "upsert_stmt \<Rightarrow> nat \<Rightarrow> 'p sqlval list \<Rightarrow> 'p dbrow option \<Rightarrow> 'p dbrow option" where
  "key_step st now vals x =
     Some (case x of
             None \<Rightarrow> excluded st vals
           | Some old \<Rightarrow> do_update st now (excluded st vals) old)"

text \<open>
  The columns an update takes from the incoming row, and all the columns it writes.
\<close>

definition data_cols :: "upsert_stmt \<Rightarrow> column set" where
  "data_cols st =
     (set (update_cols st) \<inter> set (insert_cols st)) -
     (if refresh_updated_at st then {''updated_at''} else {})"

definition touched_cols :: "upsert_stmt \<Rightarrow> column set" where
  "touched_cols st =
     (set (update_cols st) \<inter> set (insert_cols st)) \<union>
     (if refresh_updated_at st then {''updated_at''} else {})"

subsection \<open>Texts that begin with a number\<close>

text \<open>
  After the leading white space and one optional sign, the text begins with \<open>Infinity\<close>,
  with a digit, or with a point and a digit.
\<close>

definition starts_with_number :: "jsstring \<Rightarrow> bool" where
  "starts_with_number input =
     (let trimmed = dropWhile isWhiteSpace input;
          unsigned = (case trimmed of
                        [] \<Rightarrow> []
                      | c # cs \<Rightarrow>
                          if c = of_char CHR ''-'' \<or> c = of_char CHR ''+'' then cs
                          else trimmed)
      in take 8 unsigned = ascii ''Infinity'' \<or>
         (case unsigned of
            [] \<Rightarrow> False
          | c # cs \<Rightarrow>
              isDecimalDigit c \<or>
              (c = of_char CHR ''.'' \<and>
               (case cs of [] \<Rightarrow> False | d # ds \<Rightarrow> isDecimalDigit d))))"

subsection \<open>Payments and orders\<close>

text \<open>The id of the first payment, in fetch order, that refers to the order.\<close>

definition first_payment_id :: "SquarePayment list \<Rightarrow> string \<Rightarrow> string option" where
  "first_payment_id payments orderId =
     Option.bind (find (\<lambda>p. p_order_id p = Some orderId) payments) p_id"

text \<open>What \<^verbatim>\<open>fetchOrder\<close> returned for an order, when it returned.\<close>

definition fetched_order :: "(string \<Rightarrow> OrderResponse list) \<Rightarrow> string \<Rightarrow> SquareOrder option" where
  "fetched_order provider orderId =
     (case fetchOrder (provider orderId) of Returned fetched \<Rightarrow> fetched | _ \<Rightarrow> None)"

subsection \<open>Key columns\<close>

definition tenant_scope :: "column list" where
  "tenant_scope = [''tenant_id'', ''provider'', ''provider_account_id'']"

section \<open>Example records\<close>

definition example_config :: config where
  "example_config =
     \<lparr> TENANT_ID = ''T1'', POS_PROVIDER = ''square'',
       POS_PROVIDER_ACCOUNT_ID = ''default-square'' \<rparr>"

definition paid_payment :: "string \<Rightarrow> string option \<Rightarrow> SquarePayment" where
  "paid_payment pid oid =
     \<lparr> p_id = Some pid, p_created_at = ''2025-01-15T10:00:00Z'', p_updated_at = None,
       p_location_id = None, p_order_id = oid, p_status = Some ''COMPLETED'',
       p_customer_id = None, p_reference_id = None,
       p_amount_money = Some \<lparr> amount = 450, currency = ''USD'' \<rparr>,
       p_total_money = None \<rparr>"

definition example_order :: SquareOrder where
  "example_order = \<lparr> o_id = Some ''O1'', o_location_id = Some ''LOC1'', o_line_items = None \<rparr>"

definition line_item :: "string \<Rightarrow> string option \<Rightarrow> SquareLineItem" where
  "line_item uid quantity =
     \<lparr> li_uid = Some uid, li_name = Some ''Latte'', li_catalog_object_id = Some ''V1'',
       li_quantity = map_option ascii quantity,
       li_base_price_money = Some \<lparr> amount = 450, currency = ''USD'' \<rparr>,
       li_total_money = None \<rparr>"

definition inventory_count :: "string option \<Rightarrow> SquareInventoryCount" where
  "inventory_count quantity =
     \<lparr> ic_catalog_object_id = Some ''V1'', ic_catalog_object_type = Some ''ITEM_VARIATION'',
       ic_state = Some ''IN_STOCK'', ic_location_id = Some ''LOC1'',
       ic_quantity = map_option ascii quantity,
       ic_calculated_at = None \<rparr>"

definition order_of_two :: SquareOrder where
  "order_of_two =
     \<lparr> o_id = Some ''O1'', o_location_id = Some ''LOC1'',
       o_line_items = Some [line_item ''L1'' (Some ''1''), line_item ''L2'' (Some ''2'')] \<rparr>"

definition provider_of_one :: "string \<Rightarrow> OrderResponse list" where
  "provider_of_one orderId =
     [\<lparr> ores_status = 200, ores_text = [], ores_order = Some order_of_two \<rparr>]"

definition latte_item :: SquareCatalogObject where
  "latte_item =
     \<lparr> co_id = Some ''I1'', co_type = ''ITEM'', co_is_deleted = None,
       co_item_data = Some \<lparr> item_name = Some ''Latte'', item_categories = None,
                               item_category_id = Some ''C1'' \<rparr>,
       co_item_variation_data = None \<rparr>"

text \<open>The same item as its interface declares it: the category is in \<open>categories\<close>.\<close>

definition latte_item_declared :: SquareCatalogObject where
  "latte_item_declared =
     \<lparr> co_id = Some ''I1'', co_type = ''ITEM'', co_is_deleted = None,
       co_item_data = Some \<lparr> item_name = Some ''Latte'',
                               item_categories = Some [\<lparr> cref_id = ''C1'', cref_ordinal = None \<rparr>],
                               item_category_id = None \<rparr>,
       co_item_variation_data = None \<rparr>"

definition large_variation :: SquareCatalogObject where
  "large_variation =
     \<lparr> co_id = Some ''V1'', co_type = ''ITEM_VARIATION'', co_is_deleted = None,
       co_item_data = None,
       co_item_variation_data = Some \<lparr> var_name = Some ''Large'', var_sku = Some ''SKU1'',
                                         var_item_id = Some ''I1'' \<rparr> \<rparr>"







definition moneyless_payment :: "string \<Rightarrow> SquarePayment" where
  "moneyless_payment pid =
     \<lparr> p_id = Some pid, p_created_at = ''2025-01-15T10:05:00Z'', p_updated_at = None,
       p_location_id = None, p_order_id = None, p_status = None,
       p_customer_id = None, p_reference_id = None,
       p_amount_money = None, p_total_money = None \<rparr>"

section \<open>Properties\<close>

lemma map_filter_app:
  "List.map_filter f (xs @ ys) = List.map_filter f xs @ List.map_filter f ys"
  by (simp add: List.map_filter_def)

subsection \<open>Paged fetches\<close>

lemma fetch_loop_with_cursor:
  "truthy cursor \<Longrightarrow> well_paged responses \<Longrightarrow>
   fetch_loop responses cursor all =
     (requests_of responses cursor, Returned (all @ all_pages responses))"
proof (induction responses arbitrary: cursor all)
  case Nil
  then show ?case by simp
next
  case (Cons res rest)
  show ?case
  proof (cases "res_status res = 429")
    case True
    with Cons show ?thesis by (simp add: request_cursor_def all_pages_def)
  next
    case False
    with Cons show ?thesis
      by (auto simp: request_cursor_def page_records_def all_pages_def Let_def
          split: option.splits)
  qed
qed

text \<open>
  When the first response is not a 429, the loop does what the spec asks: it returns the
  records of all pages in page order, and a 429 is followed by the same request.
\<close>

lemma fetch_loop_first_answered:
  "res_status res \<noteq> 429 \<Longrightarrow> well_paged (res # rest) \<Longrightarrow>
   fetch_loop (res # rest) None [] =
     (requests_of (res # rest) None, Returned (all_pages (res # rest)))"
  using fetch_loop_with_cursor [of "res_cursor res" rest "page_records res"]
  by (auto simp: request_cursor_def page_records_def all_pages_def Let_def truthy_def
      split: option.splits)

lemma fetch_loop_first_rate_limited:
  "res_status res = 429 \<Longrightarrow> fetch_loop (res # rest) None all = ([None], Returned all)"
  by (simp add: request_cursor_def truthy_def)

text \<open>
  C1. The claim asks that a 429 is followed by the same request, so that the fetch
  returns the records of all pages. The code does so only once it holds a cursor. A 429
  in answer to the first request (no cursor yet) ends each of the four fetches: one
  request is issued, nothing is returned, and the pages that the provider would have
  given next are never asked for.
\<close>

theorem rate_limit_on_first_request_ends_fetch:
  "fetchPaymentsPaged
     (\<lparr> res_status = 429, res_text = t1, res_records = None, res_cursor = None \<rparr> # rest1)
     = ([None], Returned [])
   \<and> fetchCatalogObjects
     (\<lparr> res_status = 429, res_text = t2, res_records = None, res_cursor = None \<rparr> # rest2)
     = ([None], Returned [])
   \<and> fetchInventoryCounts
     (\<lparr> res_status = 429, res_text = t3, res_records = None, res_cursor = None \<rparr> # rest3)
     = ([None], Returned [])
   \<and> fetchCategories
     (\<lparr> res_status = 429, res_text = t4, res_records = None, res_cursor = None \<rparr> # rest4)
     = ([None], Returned [])"
  by (simp add: fetchPaymentsPaged_def fetchCatalogObjects_def fetchInventoryCounts_def
      fetchCategories_def request_cursor_def truthy_def)

subsection \<open>One statement, one key\<close>

lemma query_upsert_accepted:
  "accepts (excluded st vals) \<Longrightarrow>
   query_upsert accepts st now vals tbl =
     Inr (tbl(key_of st vals := key_step st now vals (tbl (key_of st vals))))"
  by (simp add: query_upsert_def key_step_def key_of_def Let_def split: option.splits)

lemma query_upsert_refused:
  "\<not> accepts (excluded st vals) \<Longrightarrow> query_upsert accepts st now vals tbl = Inl QueryFailed"
  by (simp add: query_upsert_def Let_def)

lemma query_all_refused:
  "\<exists>vals \<in> set vs. \<not> accepts (excluded st vals) \<Longrightarrow>
   query_all accepts st now vs tbl = Inl QueryFailed"
proof (induction vs arbitrary: tbl)
  case Nil
  then show ?case by simp
next
  case (Cons vals rest)
  show ?case
  proof (cases "accepts (excluded st vals)")
    case True
    with Cons show ?thesis by (simp add: query_upsert_accepted)
  next
    case False
    then show ?thesis by (simp add: query_upsert_refused)
  qed
qed

text \<open>
  A batch that the store accepts leaves, at each key, what the statements of that key
  make of the entry, one after the other; the other keys do not matter to it.
\<close>

lemma query_all_accepted:
  "\<forall>vals \<in> set vs. accepts (excluded st vals) \<Longrightarrow>
   \<exists>tbl'. query_all accepts st now vs tbl = Inr tbl' \<and>
     (\<forall>k. tbl' k = fold (key_step st now) (filter (\<lambda>vals. key_of st vals = k) vs) (tbl k))"
proof (induction vs arbitrary: tbl)
  case Nil
  then show ?case by simp
next
  case (Cons vals rest)
  let ?t = "tbl(key_of st vals := key_step st now vals (tbl (key_of st vals)))"
  from Cons.prems have "\<forall>vals \<in> set rest. accepts (excluded st vals)" by simp
  from Cons.IH [OF this, of ?t] obtain tbl' where
    r: "query_all accepts st now rest ?t = Inr tbl'" and
    k: "\<forall>k. tbl' k = fold (key_step st now) (filter (\<lambda>vals. key_of st vals = k) rest) (?t k)"
    by blast
  from Cons.prems r have "query_all accepts st now (vals # rest) tbl = Inr tbl'"
    by (simp add: query_upsert_accepted)
  moreover from k have
    "\<forall>k. tbl' k =
       fold (key_step st now) (filter (\<lambda>vals. key_of st vals = k) (vals # rest)) (tbl k)"
    by auto
  ultimately show ?case by blast
qed

lemma dom_excluded:
  "length vals = length (insert_cols st) \<Longrightarrow> dom (excluded st vals) = set (insert_cols st)"
  by (simp add: excluded_def dom_map_of_zip)

lemma do_update_data:
  "length vals = length (insert_cols st) \<Longrightarrow> c \<in> data_cols st \<Longrightarrow>
   do_update st now (excluded st vals) old c = excluded st vals c"
  using dom_excluded [of vals st]
  by (auto simp: do_update_def data_cols_def map_add_def restrict_map_def Let_def
      split: option.splits if_splits)

lemma do_update_frame:
  "length vals = length (insert_cols st) \<Longrightarrow> c \<notin> touched_cols st \<Longrightarrow>
   do_update st now (excluded st vals) old c = old c"
  using dom_excluded [of vals st]
  by (auto simp: do_update_def touched_cols_def map_add_def restrict_map_def Let_def
      split: option.splits if_splits)

lemma fold_key_step_frame:
  "\<forall>vals \<in> set ws. length vals = length (insert_cols st) \<Longrightarrow>
   \<exists>z'. fold (key_step st now) ws (Some z) = Some z' \<and>
     (\<forall>c. c \<notin> touched_cols st \<longrightarrow> z' c = z c)"
proof (induction ws arbitrary: z)
  case Nil
  then show ?case by simp
next
  case (Cons vals ws)
  let ?z1 = "do_update st now (excluded st vals) z"
  from Cons.prems have len: "length vals = length (insert_cols st)"
    and rest: "\<forall>vals \<in> set ws. length vals = length (insert_cols st)" by simp_all
  from Cons.IH [OF rest, of ?z1] obtain z' where
    f: "fold (key_step st now) ws (Some ?z1) = Some z'" and
    fr: "\<forall>c. c \<notin> touched_cols st \<longrightarrow> z' c = ?z1 c" by blast
  have "fold (key_step st now) (vals # ws) (Some z) = Some z'"
    using f by (simp add: key_step_def)
  moreover have "\<forall>c. c \<notin> touched_cols st \<longrightarrow> z' c = z c"
    using fr do_update_frame [OF len] by simp
  ultimately show ?case by blast
qed

lemma without_updated_at_eqI:
  "(\<And>c. c \<in> data_cols st \<Longrightarrow> a c = b c) \<Longrightarrow> (\<And>c. c \<notin> touched_cols st \<Longrightarrow> a c = b c) \<Longrightarrow>
   without_updated_at st a = without_updated_at st b"
proof -
  assume d: "\<And>c. c \<in> data_cols st \<Longrightarrow> a c = b c"
    and f: "\<And>c. c \<notin> touched_cols st \<Longrightarrow> a c = b c"
  have "c \<in> data_cols st \<or> c \<notin> touched_cols st \<or>
        (refresh_updated_at st \<and> c = ''updated_at'')" for c
    by (auto simp: data_cols_def touched_cols_def)
  then have "without_updated_at st a c = without_updated_at st b c" for c
    using d [of c] f [of c] by (auto simp: without_updated_at_def)
  then show ?thesis by (rule ext)
qed

text \<open>
  The statements of one key, run a second time: the last of them writes again what it
  wrote the first time, and the columns no update writes are as they were.
\<close>

lemma key_fold_idempotent:
  assumes len: "\<forall>vals \<in> set ws. length vals = length (insert_cols st)"
  shows "map_option (without_updated_at st)
           (fold (key_step st now2) ws (fold (key_step st now1) ws x)) =
         map_option (without_updated_at st) (fold (key_step st now1) ws x)"
proof (cases ws rule: rev_cases)
  case Nil
  then show ?thesis by simp
next
  case (snoc us v)
  from len snoc have lv: "length v = length (insert_cols st)"
    and lus: "\<forall>vals \<in> set us. length vals = length (insert_cols st)" by simp_all
  define z1 where "z1 = (case fold (key_step st now1) us x of
      None \<Rightarrow> excluded st v | Some old \<Rightarrow> do_update st now1 (excluded st v) old)"
  have first: "fold (key_step st now1) ws x = Some z1"
    by (simp add: snoc key_step_def z1_def)
  have z1_data: "z1 c = excluded st v c" if "c \<in> data_cols st" for c
    using that do_update_data [OF lv] by (simp add: z1_def split: option.splits)
  from fold_key_step_frame [OF lus, of now2 z1] obtain z' where
    f: "fold (key_step st now2) us (Some z1) = Some z'" and
    fr: "\<forall>c. c \<notin> touched_cols st \<longrightarrow> z' c = z1 c" by blast
  have second:
    "fold (key_step st now2) ws (Some z1) = Some (do_update st now2 (excluded st v) z')"
    using f by (simp add: snoc key_step_def)
  have "without_updated_at st (do_update st now2 (excluded st v) z') =
        without_updated_at st z1"
  proof (rule without_updated_at_eqI)
    fix c assume "c \<in> data_cols st"
    then show "do_update st now2 (excluded st v) z' c = z1 c"
      using do_update_data [OF lv] z1_data by simp
  next
    fix c assume "c \<notin> touched_cols st"
    then show "do_update st now2 (excluded st v) z' c = z1 c"
      using do_update_frame [OF lv] fr by simp
  qed
  then show ?thesis by (simp add: first second)
qed

lemma query_all_idempotent:
  assumes len: "\<forall>vals \<in> set vs. length vals = length (insert_cols st)"
    and one: "query_all accepts st now1 vs tbl = Inr tbl1"
  shows "\<exists>tbl2. query_all accepts st now2 vs tbl1 = Inr tbl2 \<and>
           modulo_updated_at st tbl2 = modulo_updated_at st tbl1"
proof -
  have acc: "\<forall>vals \<in> set vs. accepts (excluded st vals)"
    using one query_all_refused [of vs accepts st now1 tbl] by auto
  from query_all_accepted [OF acc, of now1 tbl] one have
    k1: "\<forall>k. tbl1 k = fold (key_step st now1) (filter (\<lambda>vals. key_of st vals = k) vs) (tbl k)"
    by simp
  from query_all_accepted [OF acc, of now2 tbl1] obtain tbl2 where
    two: "query_all accepts st now2 vs tbl1 = Inr tbl2" and
    k2: "\<forall>k. tbl2 k = fold (key_step st now2) (filter (\<lambda>vals. key_of st vals = k) vs) (tbl1 k)"
    by blast
  have "modulo_updated_at st tbl2 k = modulo_updated_at st tbl1 k" for k
  proof -
    let ?ws = "filter (\<lambda>vals. key_of st vals = k) vs"
    have "\<forall>vals \<in> set ?ws. length vals = length (insert_cols st)" using len by simp
    from key_fold_idempotent [OF this, of now2 now1 "tbl k"] show ?thesis
      using k1 k2 by (simp add: modulo_updated_at_def)
  qed
  then have "modulo_updated_at st tbl2 = modulo_updated_at st tbl1" by (rule ext)
  with two show ?thesis by blast
qed

subsection \<open>Writers run twice\<close>

lemma modulo_updated_at_plain:
  "\<not> refresh_updated_at st \<Longrightarrow> modulo_updated_at st tbl = tbl"
proof -
  assume "\<not> refresh_updated_at st"
  then have "map_option (without_updated_at st) x = x" for x :: "'a dbrow option"
    by (cases x) (simp_all add: without_updated_at_def)
  then show ?thesis by (simp add: modulo_updated_at_def)
qed

lemma query_all_fails_anywhere:
  "query_all accepts st now1 vs tbl = Inl e \<Longrightarrow> query_all accepts st now2 vs tbl' = Inl e"
proof -
  assume a: "query_all accepts st now1 vs tbl = Inl e"
  have "\<exists>vals \<in> set vs. \<not> accepts (excluded st vals)"
  proof (rule ccontr)
    assume "\<not> ?thesis"
    then have "\<forall>vals \<in> set vs. accepts (excluded st vals)" by simp
    from query_all_accepted [OF this, of now1 tbl] a show False by auto
  qed
  then show ?thesis using a query_all_refused [of vs accepts st] by simp
qed

lemma upsertRows_idempotent:
  assumes len: "\<And>r. length (values_of r) = length (insert_cols st)"
  shows "modulo_updated_at st
           (fst (upsertRows st values_of accepts now2 rows
                  (fst (upsertRows st values_of accepts now1 rows tbl)))) =
         modulo_updated_at st (fst (upsertRows st values_of accepts now1 rows tbl))"
proof (cases "query_all accepts st now1 (map values_of rows) tbl")
  case (Inl e)
  from query_all_fails_anywhere [OF Inl, of now2 tbl] Inl show ?thesis
    by (simp add: upsertRows_def transaction_def)
next
  case (Inr tbl1)
  have "\<forall>vals \<in> set (map values_of rows). length vals = length (insert_cols st)"
    using len by simp
  from query_all_idempotent [OF this Inr, of now2] Inr show ?thesis
    by (auto simp: upsertRows_def transaction_def)
qed

lemma payments_loop_cases:
  "(\<exists>e. \<forall>now tbl. payments_loop cfg accepts now ps tbl = Inl e) \<or>
   (\<exists>rows. \<forall>now tbl. payments_loop cfg accepts now ps tbl =
       query_all accepts payments_stmt now (map (payment_values cfg) rows) tbl)"
proof (induction ps)
  case Nil
  have "\<forall>now tbl. payments_loop cfg accepts now [] tbl =
       query_all accepts payments_stmt now (map (payment_values cfg) []) tbl" by simp
  then show ?case by blast
next
  case (Cons p ps)
  show ?case
  proof (cases "mapPaymentToRow p")
    case (Inl e)
    then have "\<forall>now tbl. payments_loop cfg accepts now (p # ps) tbl = Inl e" by simp
    then show ?thesis by blast
  next
    case (Inr row)
    show ?thesis
    proof (cases "accepts (excluded payments_stmt (payment_values cfg row))")
      case False
      with Inr have "\<forall>now tbl. payments_loop cfg accepts now (p # ps) tbl = Inl QueryFailed"
        by (simp add: query_upsert_refused)
      then show ?thesis by blast
    next
      case True
      from Cons.IH show ?thesis
      proof
        assume "\<exists>e. \<forall>now tbl. payments_loop cfg accepts now ps tbl = Inl e"
        then obtain e where "\<forall>now tbl. payments_loop cfg accepts now ps tbl = Inl e" ..
        with Inr True have "\<forall>now tbl. payments_loop cfg accepts now (p # ps) tbl = Inl e"
          by (simp add: query_upsert_accepted)
        then show ?thesis by blast
      next
        assume "\<exists>rows. \<forall>now tbl. payments_loop cfg accepts now ps tbl =
           query_all accepts payments_stmt now (map (payment_values cfg) rows) tbl"
        then obtain rows where "\<forall>now tbl. payments_loop cfg accepts now ps tbl =
           query_all accepts payments_stmt now (map (payment_values cfg) rows) tbl" ..
        with Inr True have "\<forall>now tbl. payments_loop cfg accepts now (p # ps) tbl =
           query_all accepts payments_stmt now (map (payment_values cfg) (row # rows)) tbl"
          by (simp add: query_upsert_accepted)
        then show ?thesis by blast
      qed
    qed
  qed
qed

lemma upsertPayments_idempotent:
  "fst (upsertPayments cfg accepts now2 ps (fst (upsertPayments cfg accepts now1 ps tbl))) =
   fst (upsertPayments cfg accepts now1 ps tbl)"
proof -
  from payments_loop_cases [of cfg accepts ps] show ?thesis
  proof
    assume "\<exists>e. \<forall>now tbl. payments_loop cfg accepts now ps tbl = Inl e"
    then show ?thesis by (auto simp: upsertPayments_def transaction_def)
  next
    assume "\<exists>rows. \<forall>now tbl. payments_loop cfg accepts now ps tbl =
       query_all accepts payments_stmt now (map (payment_values cfg) rows) tbl"
    then obtain rows where r: "\<And>now tbl. payments_loop cfg accepts now ps tbl =
       query_all accepts payments_stmt now (map (payment_values cfg) rows) tbl" by blast
    have e: "upsertPayments cfg accepts now ps tbl =
        (if length ps = 0 then (tbl, None) else
         transaction (query_all accepts payments_stmt now (map (payment_values cfg) rows)) tbl)" for now tbl
      unfolding upsertPayments_def transaction_def r ..
    have len: "\<And>r. length (payment_values cfg r) = length (insert_cols payments_stmt)"
      by (simp add: payment_values_def payments_stmt_def)
    have "ps \<noteq> [] \<Longrightarrow> rows \<noteq> [] \<Longrightarrow> ?thesis"
      using upsertRows_idempotent [of "payment_values cfg" payments_stmt accepts now2 rows now1 tbl, OF len]
      by (simp add: e upsertRows_def modulo_updated_at_plain payments_stmt_def)
    moreover have "rows = [] \<Longrightarrow> ?thesis" by (simp add: e transaction_def)
    moreover have "ps = [] \<Longrightarrow> ?thesis" by (simp add: upsertPayments_def)
    ultimately show ?thesis by blast
  qed
qed

text \<open>
  C4. For each of the six writers, writing a batch and then writing the same batch again
  leaves the table that writing it once leaves: up to the column \<open>updated_at\<close> for the
  location, category and inventory writers, whose statements refresh it, and exactly for
  the catalog, payment and order item writers, whose statements do not. This holds for
  every batch, every table and every constraint of the table: a batch that fails is
  rolled back both times.
\<close>

theorem upsert_twice_is_upsert_once:
  "modulo_updated_at locations_stmt
     (fst (upsertLocationRows cfg acc1 later1 rows1
        (fst (upsertLocationRows cfg acc1 now1 rows1 tbl1)))) =
   modulo_updated_at locations_stmt (fst (upsertLocationRows cfg acc1 now1 rows1 tbl1))
   \<and> modulo_updated_at categories_stmt
     (fst (upsertCategoryRows cfg acc2 later2 rows2
        (fst (upsertCategoryRows cfg acc2 now2 rows2 tbl2)))) =
   modulo_updated_at categories_stmt (fst (upsertCategoryRows cfg acc2 now2 rows2 tbl2))
   \<and> modulo_updated_at inventory_stmt
     (fst (upsertInventoryRows cfg acc3 later3 rows3
        (fst (upsertInventoryRows cfg acc3 now3 rows3 tbl3)))) =
   modulo_updated_at inventory_stmt (fst (upsertInventoryRows cfg acc3 now3 rows3 tbl3))
   \<and> fst (upsertCatalogRows cfg acc4 later4 rows4
        (fst (upsertCatalogRows cfg acc4 now4 rows4 tbl4))) =
     fst (upsertCatalogRows cfg acc4 now4 rows4 tbl4)
   \<and> fst (upsertPayments cfg acc5 later5 payments
        (fst (upsertPayments cfg acc5 now5 payments tbl5))) =
     fst (upsertPayments cfg acc5 now5 payments tbl5)
   \<and> fst (upsertOrderItems cfg acc6 later6 rows6
        (fst (upsertOrderItems cfg acc6 now6 rows6 tbl6))) =
     fst (upsertOrderItems cfg acc6 now6 rows6 tbl6)"
proof -
  have loc: "\<And>r. length (location_values cfg r) = length (insert_cols locations_stmt)"
    by (simp add: location_values_def locations_stmt_def)
  have cat: "\<And>r. length (category_values cfg r) = length (insert_cols categories_stmt)"
    by (simp add: category_values_def categories_stmt_def)
  have inv: "\<And>r. length (inventory_values cfg r) = length (insert_cols inventory_stmt)"
    by (simp add: inventory_values_def inventory_stmt_def)
  have ctl: "\<And>r. length (catalog_values cfg r) = length (insert_cols catalog_stmt)"
    by (simp add: catalog_values_def catalog_stmt_def)
  have itm: "\<And>r. length (order_item_values cfg r) = length (insert_cols order_items_stmt)"
    by (simp add: order_item_values_def order_items_stmt_def)
  have p1: "\<not> refresh_updated_at catalog_stmt" by (simp add: catalog_stmt_def)
  have p2: "\<not> refresh_updated_at order_items_stmt" by (simp add: order_items_stmt_def)
  note a = upsertRows_idempotent [of "location_values cfg" locations_stmt, OF loc]
  note b = upsertRows_idempotent [of "category_values cfg" categories_stmt, OF cat]
  note c = upsertRows_idempotent [of "inventory_values cfg" inventory_stmt, OF inv]
  note d = upsertRows_idempotent [of "catalog_values cfg" catalog_stmt, OF ctl,
      unfolded modulo_updated_at_plain [OF p1]]
  note e = upsertRows_idempotent [of "order_item_values cfg" order_items_stmt, OF itm,
      unfolded modulo_updated_at_plain [OF p2]]
  show ?thesis
    unfolding upsertLocationRows_def upsertCategoryRows_def upsertInventoryRows_def
      upsertCatalogRows_def upsertOrderItems_def
    by (intro conjI a b c d e upsertPayments_idempotent)
qed

subsection \<open>A payment without money fields\<close>

lemma payments_loop_no_money:
  "p \<in> set payments \<Longrightarrow> p_total_money p = None \<Longrightarrow> p_amount_money p = None \<Longrightarrow>
   \<exists>e. payments_loop cfg accepts now payments tbl = Inl e"
proof (induction payments arbitrary: tbl)
  case Nil
  then show ?case by simp
next
  case (Cons q payments)
  show ?case
  proof (cases "q = p")
    case True
    with Cons.prems show ?thesis by (simp add: mapPaymentToRow_def orElse_def)
  next
    case False
    with Cons.prems have "p \<in> set payments" by simp
    from Cons.IH [OF this Cons.prems(2) Cons.prems(3)] show ?thesis
      by (simp split: sum.splits)
  qed
qed

text \<open>
  C2. When some payment of the batch has neither \<open>total_money\<close> nor \<open>amount_money\<close>,
  mapping it throws (it is never mapped to a row, and never skipped), and
  \<open>upsertPayments\<close> ends with an error for its caller and with the table as it was
  before the call: no payment of the batch is written.
\<close>

theorem payment_without_money_rolls_back_batch:
  "p \<in> set payments \<Longrightarrow> p_total_money p = None \<Longrightarrow> p_amount_money p = None \<Longrightarrow>
   mapPaymentToRow p = Inl (NoMoneyFields (p_id p)) \<and>
   (\<exists>e. upsertPayments cfg accepts now payments tbl = (tbl, Some e))"
proof -
  assume a: "p \<in> set payments" "p_total_money p = None" "p_amount_money p = None"
  from payments_loop_no_money [OF a] obtain e where
    "payments_loop cfg accepts now payments tbl = Inl e" by blast
  moreover from a have "payments \<noteq> []" by auto
  ultimately have "upsertPayments cfg accepts now payments tbl = (tbl, Some e)"
    by (simp add: upsertPayments_def transaction_def)
  with a show ?thesis by (auto simp: mapPaymentToRow_def orElse_def)
qed

theorem payment_without_money_rolls_back_batch_witness:
  "mapPaymentToRow (moneyless_payment ''P2'') = Inl (NoMoneyFields (Some ''P2'')) \<and>
   (\<exists>e. upsertPayments example_config (\<lambda>row. True) 7
          [paid_payment ''P1'' None, moneyless_payment ''P2''] Map.empty
        = (Map.empty, Some e))"
  using payment_without_money_rolls_back_batch
    [of "moneyless_payment ''P2''" "[paid_payment ''P1'' None, moneyless_payment ''P2'']"
        example_config "\<lambda>row. True" 7 Map.empty]
  by (simp add: moneyless_payment_def)

subsection \<open>Conflict targets\<close>

text \<open>
  C3, as the code has it. The conflict target is the full tenant scope and the entity id
  for locations, categories and catalog entries; the full tenant scope and the catalog
  object id, location id and state for inventory counts; tenant id, provider and payment
  id for payments; tenant id, provider, order id and line item uid for order line items.
  Payments and order line items both leave the provider account out of the key. The
  key under which a writer stores a row holds the values of these columns.
\<close>

theorem conflict_targets:
  "conflict_cols locations_stmt = tenant_scope @ [''location_id'']
   \<and> conflict_cols categories_stmt = tenant_scope @ [''category_id'']
   \<and> conflict_cols catalog_stmt = tenant_scope @ [''catalog_object_id'']
   \<and> conflict_cols inventory_stmt =
       tenant_scope @ [''catalog_object_id'', ''location_id'', ''state'']
   \<and> conflict_cols payments_stmt = [''tenant_id'', ''provider'', ''payment_id'']
   \<and> conflict_cols order_items_stmt =
       [''tenant_id'', ''provider'', ''order_id'', ''line_item_uid'']
   \<and> key_of locations_stmt (location_values cfg lrow) =
       [Text (TENANT_ID cfg), Text (POS_PROVIDER cfg), Text (POS_PROVIDER_ACCOUNT_ID cfg),
        Text (lr_location_id lrow)]
   \<and> key_of categories_stmt (category_values cfg crow) =
       [Text (TENANT_ID cfg), Text (POS_PROVIDER cfg), Text (POS_PROVIDER_ACCOUNT_ID cfg),
        Text (cr_category_id crow)]
   \<and> key_of catalog_stmt (catalog_values cfg krow) =
       [Text (TENANT_ID cfg), Text (POS_PROVIDER cfg), Text (POS_PROVIDER_ACCOUNT_ID cfg),
        optText (kr_catalog_object_id krow)]
   \<and> key_of inventory_stmt (inventory_values cfg irow) =
       [Text (TENANT_ID cfg), Text (POS_PROVIDER cfg), Text (POS_PROVIDER_ACCOUNT_ID cfg),
        Text (ir_catalog_object_id irow), optText (ir_location_id irow),
        Text (ir_state irow)]
   \<and> key_of payments_stmt (payment_values cfg prow) =
       [Text (TENANT_ID cfg), Text (POS_PROVIDER cfg), optText (pr_payment_id prow)]
   \<and> key_of order_items_stmt (order_item_values cfg orow) =
       [Text (TENANT_ID cfg), Text (POS_PROVIDER cfg), optText (or_order_id orow),
        Text (or_line_item_uid orow)]"
  by (simp add: key_of_def conflict_key_def excluded_def tenant_scope_def
      locations_stmt_def categories_stmt_def catalog_stmt_def inventory_stmt_def
      payments_stmt_def order_items_stmt_def
      location_values_def category_values_def catalog_values_def inventory_values_def
      payment_values_def order_item_values_def)

text \<open>
  The claim as stated fails: the key of an order line item is not the tenant scope with
  order id and line item uid, since the provider account is not in it; so the payment is
  not the only kind without it; and the key of an inventory count is not the tenant scope
  with one id.
\<close>

theorem conflict_targets_counterexample:
  "conflict_cols order_items_stmt \<noteq> tenant_scope @ [''order_id'', ''line_item_uid'']
   \<and> ''provider_account_id'' \<notin> set (conflict_cols order_items_stmt)
   \<and> \<not> (\<exists>c. conflict_cols inventory_stmt = tenant_scope @ [c])"
  by (simp add: order_items_stmt_def inventory_stmt_def tenant_scope_def)

subsection \<open>Quantities\<close>

lemma toNumber_zero: "toNumber 0 = Finite 0"
  by (simp add: toNumber_def)

lemma toNumber_plain:
  "1 / 2 ^ 64 \<le> \<bar>v\<bar> \<Longrightarrow> \<bar>v\<bar> \<le> 2 ^ 64 \<Longrightarrow> toNumber v = Finite v"
proof -
  assume a: "1 / 2 ^ 64 \<le> \<bar>v\<bar>" and b: "\<bar>v\<bar> \<le> 2 ^ 64"
  have p: "(2::rat) ^ 64 < 2 ^ 1024 - 2 ^ 970"
  proof -
    have "(2::rat) ^ 970 * 2 \<le> 2 ^ 970 * 2 ^ 54" by (intro mult_left_mono) simp_all
    then have "(2::rat) ^ 970 + 2 ^ 970 \<le> 2 ^ 1024" by (simp add: power_add [symmetric])
    moreover have "(2::rat) ^ 64 < 2 ^ 970" by (rule power_strict_increasing) simp_all
    ultimately show ?thesis by linarith
  qed
  have q: "1 / (2::rat) ^ 1075 < 1 / 2 ^ 64"
    by (simp add: field_simps)
  show ?thesis using a b p q by (auto simp: toNumber_def abs_if split: if_splits)
qed

lemma parseUnsigned_None:
  "parseUnsigned u = None \<longleftrightarrow>
     (case u of [] \<Rightarrow> True
      | c # cs \<Rightarrow> \<not> isDecimalDigit c \<and>
          \<not> (c = of_char CHR ''.'' \<and>
             (case cs of [] \<Rightarrow> False | d # ds \<Rightarrow> isDecimalDigit d)))"
  by (auto simp: parseUnsigned_def Let_def isDecimalDigit_def split: list.splits if_splits)

lemma toNumber_not_NaN: "toNumber v \<noteq> NaN"
  by (simp add: toNumber_def)

lemma parseFloat_NaN: "parseFloat input = NaN \<longleftrightarrow> \<not> starts_with_number input"
proof -
  define u where "u = (case dropWhile isWhiteSpace input of
      [] \<Rightarrow> []
    | c # cs \<Rightarrow> if c = of_char CHR ''-'' \<or> c = of_char CHR ''+'' then cs
               else dropWhile isWhiteSpace input)"
  have a: "parseFloat input = NaN \<longleftrightarrow>
      take 8 u \<noteq> ascii ''Infinity'' \<and> parseUnsigned u = None"
    unfolding parseFloat_def Let_def u_def [symmetric]
    by (simp add: toNumber_not_NaN split: option.splits)
  have b: "starts_with_number input \<longleftrightarrow>
      take 8 u = ascii ''Infinity'' \<or> parseUnsigned u \<noteq> None"
    unfolding starts_with_number_def Let_def u_def [symmetric] parseUnsigned_None
    by (cases u) simp_all
  show ?thesis using a b by blast
qed

lemma parseFloat_0: "parseFloat (ascii ''0'') = Finite 0"
  by (simp add: parseFloat_def parseUnsigned_def isWhiteSpace_def isDecimalDigit_def
      digitsValue_def scale10_def exponentPart_def toNumber_zero ascii_def)

lemma parseFloat_2abc: "parseFloat (ascii ''2abc'') = Finite 2"
  using toNumber_plain [of 2]
  by (simp add: parseFloat_def parseUnsigned_def isWhiteSpace_def isDecimalDigit_def
      digitsValue_def scale10_def exponentPart_def ascii_def)

lemma parseFloat_minus3: "parseFloat (ascii ''-3'') = Finite (- 3)"
  using toNumber_plain [of "- 3"]
  by (simp add: parseFloat_def parseUnsigned_def isWhiteSpace_def isDecimalDigit_def
      digitsValue_def scale10_def exponentPart_def ascii_def)

lemma parseFloat_1: "parseFloat (ascii ''1'') = Finite 1"
  using toNumber_plain [of 1]
  by (simp add: parseFloat_def parseUnsigned_def isWhiteSpace_def isDecimalDigit_def
      digitsValue_def scale10_def exponentPart_def ascii_def)

lemma parseFloat_2: "parseFloat (ascii ''2'') = Finite 2"
  using toNumber_plain [of 2]
  by (simp add: parseFloat_def parseUnsigned_def isWhiteSpace_def isDecimalDigit_def
      digitsValue_def scale10_def exponentPart_def ascii_def)

lemma parseFloat_abc: "parseFloat (ascii ''abc'') = NaN"
  by (simp add: parseFloat_NaN starts_with_number_def isWhiteSpace_def isDecimalDigit_def
      ascii_def)

text \<open>
  Leading white space is skipped whatever it is: the line item whose quantity is the
  no-break space U+00A0 followed by \<open>2\<close>, and the inventory count whose quantity is
  the em space U+2003 followed by \<open>2\<close>, are kept with quantity 2.
\<close>

lemma parseFloat_skips_white_space:
  "isWhiteSpace c \<Longrightarrow> parseFloat (c # input) = parseFloat input"
  by (simp add: parseFloat_def)

lemma no_break_space_quantity_is_kept:
  "map_option or_quantity
     (mapLineItemToRow example_order (Some ''P1'')
        ((line_item ''L1'' None)\<lparr> li_quantity := Some (160 # ascii ''2'') \<rparr>)) = Some 2
   \<and> map_option ir_quantity
     (mapInventoryCountToRow
        ((inventory_count None)\<lparr> ic_quantity := Some (8195 # ascii ''2'') \<rparr>)) = Some 2"
proof -
  have "parseFloat (160 # ascii ''2'') = Finite 2" "parseFloat (8195 # ascii ''2'') = Finite 2"
    by (simp_all add: parseFloat_skips_white_space isWhiteSpace_def parseFloat_2)
  then show ?thesis
    by (simp add: mapLineItemToRow_def mapInventoryCountToRow_def line_item_def
        inventory_count_def quantityStr_def truthy_def isFinite_def le_zero_def
        finiteValue_def)
qed

lemma isFinite_iff: "isFinite q \<longleftrightarrow> (\<exists>v. q = Finite v)"
  by (cases q) (simp_all add: isFinite_def)

lemma mapLineItemToRow_Some_iff:
  "mapLineItemToRow order pid li \<noteq> None \<longleftrightarrow>
     truthy (li_uid li) \<and> (\<exists>v. parseFloat (quantityStr (li_quantity li)) = Finite v \<and> 0 < v)"
  by (cases "parseFloat (quantityStr (li_quantity li))")
    (auto simp: mapLineItemToRow_def Let_def isFinite_def le_zero_def)

lemma mapInventoryCountToRow_Some_iff:
  "mapInventoryCountToRow c \<noteq> None \<longleftrightarrow>
     truthy (ic_catalog_object_id c) \<and> (\<exists>v. parseFloat (quantityStr (ic_quantity c)) = Finite v)"
  by (cases "parseFloat (quantityStr (ic_quantity c))")
    (auto simp: mapInventoryCountToRow_def Let_def isFinite_def)

text \<open>
  C5, as the code has it. A line item is mapped to a row exactly when its uid is present
  and the number that \<open>parseFloat\<close> reads from its quantity text is finite and greater
  than zero; an inventory count, exactly when its catalog object id is present and the
  number read is finite, so zero and negative quantities are kept. The number read is
  the row's quantity. \<open>parseFloat\<close> reads the longest numeric prefix: it gives NaN, and
  the record is left out, exactly when the text does not begin with a number; text
  after a leading number is ignored.
\<close>

theorem quantity_must_parse:
  "(mapLineItemToRow order pid li \<noteq> None \<longleftrightarrow>
      truthy (li_uid li) \<and>
      (\<exists>v. parseFloat (quantityStr (li_quantity li)) = Finite v \<and> 0 < v))
   \<and> (mapInventoryCountToRow c \<noteq> None \<longleftrightarrow>
      truthy (ic_catalog_object_id c) \<and>
      (\<exists>v. parseFloat (quantityStr (ic_quantity c)) = Finite v))
   \<and> (parseFloat s = NaN \<longleftrightarrow> \<not> starts_with_number s)
   \<and> (\<forall>row. mapLineItemToRow order pid li = Some row \<longrightarrow>
        parseFloat (quantityStr (li_quantity li)) = Finite (or_quantity row))
   \<and> (\<forall>row. mapInventoryCountToRow c = Some row \<longrightarrow>
        parseFloat (quantityStr (ic_quantity c)) = Finite (ir_quantity row))"
proof (intro conjI)
  show "\<forall>row. mapLineItemToRow order pid li = Some row \<longrightarrow>
        parseFloat (quantityStr (li_quantity li)) = Finite (or_quantity row)"
    by (cases "parseFloat (quantityStr (li_quantity li))")
      (auto simp: mapLineItemToRow_def Let_def isFinite_def finiteValue_def split: if_splits)
  show "\<forall>row. mapInventoryCountToRow c = Some row \<longrightarrow>
        parseFloat (quantityStr (ic_quantity c)) = Finite (ir_quantity row)"
    by (cases "parseFloat (quantityStr (ic_quantity c))")
      (auto simp: mapInventoryCountToRow_def Let_def isFinite_def finiteValue_def split: if_splits)
qed (rule mapLineItemToRow_Some_iff mapInventoryCountToRow_Some_iff parseFloat_NaN)+

theorem quantity_must_parse_witness:
  "mapLineItemToRow example_order (Some ''P1'') (line_item ''L1'' (Some ''0'')) = None
   \<and> mapLineItemToRow example_order (Some ''P1'') (line_item ''L1'' (Some ''-3'')) = None
   \<and> mapLineItemToRow example_order (Some ''P1'') (line_item ''L1'' (Some ''abc'')) = None
   \<and> mapInventoryCountToRow (inventory_count (Some ''-3'')) \<noteq> None
   \<and> mapInventoryCountToRow (inventory_count (Some ''0'')) \<noteq> None
   \<and> mapInventoryCountToRow (inventory_count (Some ''abc'')) = None"
  using
    quantity_must_parse [of example_order "Some ''P1''" "line_item ''L1'' (Some ''0'')"
      "inventory_count (Some ''-3'')" "ascii ''abc''"]
    quantity_must_parse [of example_order "Some ''P1''" "line_item ''L1'' (Some ''-3'')"
      "inventory_count (Some ''0'')" "ascii ''abc''"]
    quantity_must_parse [of example_order "Some ''P1''" "line_item ''L1'' (Some ''abc'')"
      "inventory_count (Some ''abc'')" "ascii ''abc''"]
    parseFloat_0 parseFloat_minus3 parseFloat_abc
  by (simp add: line_item_def inventory_count_def quantityStr_def truthy_def)

text \<open>
  The claim as stated fails: the text \<open>2abc\<close> is not numeric, and the line item that
  carries it is mapped to a row with quantity 2.
\<close>

theorem trailing_text_counterexample:
  "\<exists>row. mapLineItemToRow example_order (Some ''P1'') (line_item ''L1'' (Some ''2abc'')) = Some row
      \<and> or_quantity row = 2"
  using parseFloat_2abc
  by (simp add: mapLineItemToRow_def line_item_def quantityStr_def truthy_def isFinite_def
      le_zero_def finiteValue_def)


lemma upsertRows_single:
  "accepts (excluded st (values_of row)) \<Longrightarrow>
   fst (upsertRows st values_of accepts now [row] tbl) (key_of st (values_of row)) =
     key_step st now (values_of row) (tbl (key_of st (values_of row)))"
  by (simp add: upsertRows_def transaction_def query_upsert_accepted)

lemma inventory_quantity_stored:
  "key_step inventory_stmt now (inventory_values cfg row) x = Some stored \<Longrightarrow>
   stored ''quantity'' = Some (Number (ir_quantity row))"
proof -
  assume a: "key_step inventory_stmt now (inventory_values cfg row) x = Some stored"
  have len: "length (inventory_values cfg row) = length (insert_cols inventory_stmt)"
    by (simp add: inventory_values_def inventory_stmt_def)
  have d: "''quantity'' \<in> data_cols inventory_stmt"
    by (simp add: data_cols_def inventory_stmt_def)
  have e: "excluded inventory_stmt (inventory_values cfg row) ''quantity'' =
      Some (Number (ir_quantity row))"
    by (simp add: excluded_def inventory_stmt_def inventory_values_def)
  show ?thesis
  proof (cases x)
    case None
    with a e show ?thesis by (auto simp: key_step_def)
  next
    case (Some old)
    with a do_update_data [OF len d, of now old] e show ?thesis by (auto simp: key_step_def)
  qed
qed

text \<open>
  C10. Without a quantity field both mappers parse the text \<open>0\<close>. An inventory count
  with a catalog object id and no quantity is mapped to a row of quantity 0, the row is
  the batch, and when the store accepts it the table holds, at the row's key, a row whose
  quantity is 0. A line item with no quantity is mapped to no row.
\<close>

theorem absent_quantity_is_zero:
  "(truthy (ic_catalog_object_id c) \<and> ic_quantity c = None \<longrightarrow>
      (\<exists>row. mapInventoryCountToRow c = Some row \<and> ir_quantity row = 0 \<and>
         inventoryRows [c] = [row] \<and>
         (accepts (excluded inventory_stmt (inventory_values cfg row)) \<longrightarrow>
            (\<exists>stored.
               fst (upsertInventoryRows cfg accepts now (inventoryRows [c]) tbl)
                 (key_of inventory_stmt (inventory_values cfg row)) = Some stored \<and>
               stored ''quantity'' = Some (Number 0)))))
   \<and> (li_quantity li = None \<longrightarrow> mapLineItemToRow order pid li = None)"
proof (intro conjI impI)
  assume "li_quantity li = None"
  then show "mapLineItemToRow order pid li = None"
    by (simp add: mapLineItemToRow_def quantityStr_def parseFloat_0 le_zero_def Let_def)
next
  assume a: "truthy (ic_catalog_object_id c) \<and> ic_quantity c = None"
  then obtain row where r: "mapInventoryCountToRow c = Some row" and q: "ir_quantity row = 0"
    by (simp add: mapInventoryCountToRow_def quantityStr_def parseFloat_0 isFinite_def
        finiteValue_def Let_def)
  have rows: "inventoryRows [c] = [row]"
    using r by (simp add: inventoryRows_def List.map_filter_def)
  have "\<exists>stored.
      fst (upsertInventoryRows cfg accepts now (inventoryRows [c]) tbl)
        (key_of inventory_stmt (inventory_values cfg row)) = Some stored \<and>
      stored ''quantity'' = Some (Number 0)"
    if acc: "accepts (excluded inventory_stmt (inventory_values cfg row))"
  proof -
    let ?k = "key_of inventory_stmt (inventory_values cfg row)"
    obtain stored where
      s: "key_step inventory_stmt now (inventory_values cfg row) (tbl ?k) = Some stored"
      by (simp add: key_step_def)
    from upsertRows_single [of accepts inventory_stmt "inventory_values cfg" row now tbl, OF acc] s
    have "fst (upsertInventoryRows cfg accepts now (inventoryRows [c]) tbl) ?k = Some stored"
      by (simp add: upsertInventoryRows_def rows)
    with inventory_quantity_stored [OF s] q show ?thesis by simp
  qed
  with r q rows show "\<exists>row. mapInventoryCountToRow c = Some row \<and> ir_quantity row = 0 \<and>
         inventoryRows [c] = [row] \<and>
         (accepts (excluded inventory_stmt (inventory_values cfg row)) \<longrightarrow>
            (\<exists>stored.
               fst (upsertInventoryRows cfg accepts now (inventoryRows [c]) tbl)
                 (key_of inventory_stmt (inventory_values cfg row)) = Some stored \<and>
               stored ''quantity'' = Some (Number 0)))"
    by blast
qed

theorem absent_quantity_is_zero_witness:
  "(\<exists>row. mapInventoryCountToRow (inventory_count None) = Some row \<and> ir_quantity row = 0 \<and>
      inventoryRows [inventory_count None] = [row] \<and>
      (\<exists>stored.
         fst (upsertInventoryRows example_config (\<lambda>row. True) 7
                (inventoryRows [inventory_count None]) Map.empty)
           (key_of inventory_stmt (inventory_values example_config row)) = Some stored \<and>
         stored ''quantity'' = Some (Number 0)))
   \<and> mapLineItemToRow example_order (Some ''P1'') (line_item ''L1'' None) = None"
  using absent_quantity_is_zero
    [of "inventory_count None" "\<lambda>row. True" example_config 7 Map.empty
        "line_item ''L1'' None" example_order "Some ''P1''"]
  by (simp add: inventory_count_def line_item_def truthy_def)

subsection \<open>Orders joined to payments\<close>

lemma orderToPayment_lookup:
  "map_of (orderToPayment payments m) orderId =
     (case map_of m orderId of
        Some v \<Rightarrow> Some v
      | None \<Rightarrow> if orderId \<noteq> []
                then map_option p_id (find (\<lambda>p. p_order_id p = Some orderId) payments)
                else None)"
proof (induction payments arbitrary: m)
  case Nil
  then show ?case by (simp split: option.splits)
next
  case (Cons p payments)
  show ?case
    by (cases "p_order_id p")
      (auto simp: Cons.IH truthy_def map_add_def split: option.splits)
qed

lemma orderToPayment_keys:
  "fst ` set (orderToPayment payments m) =
     fst ` set m \<union> {orderId. orderId \<noteq> [] \<and> (\<exists>p \<in> set payments. p_order_id p = Some orderId)}"
proof (induction payments arbitrary: m)
  case Nil
  then show ?case by simp
next
  case (Cons p payments)
  define m' where "m' =
    (if truthy (p_order_id p) then
       (if map_of m (the (p_order_id p)) = None
        then m @ [(the (p_order_id p), p_id p)] else m)
     else m)"
  have step: "orderToPayment (p # payments) m = orderToPayment payments m'"
    by (simp add: m'_def)
  have k: "map_of m k = None \<longleftrightarrow> k \<notin> fst ` set m" for k
    by (simp add: map_of_eq_None_iff)
  have "fst ` set m' \<union>
        {orderId. orderId \<noteq> [] \<and> (\<exists>q \<in> set payments. p_order_id q = Some orderId)} =
        fst ` set m \<union>
        {orderId. orderId \<noteq> [] \<and> (\<exists>q \<in> set (p # payments). p_order_id q = Some orderId)}"
    by (cases "p_order_id p") (auto simp: m'_def truthy_def k)
  with Cons.IH [of m'] show ?case unfolding step by simp
qed

lemma orderToPayment_distinct:
  "distinct (map fst m) \<Longrightarrow> distinct (map fst (orderToPayment payments m))"
proof (induction payments arbitrary: m)
  case Nil
  then show ?case by simp
next
  case (Cons p payments)
  have "distinct (map fst (m @ [(k, v)]))" if "map_of m k = None" for k v
    using that Cons.prems by (simp add: map_of_eq_None_iff)
  then show ?case using Cons by simp
qed

lemma ordersLoop_returns:
  "\<forall>orderId \<in> set ids. \<exists>fetched. fetchOrder (provider orderId) = Returned fetched \<Longrightarrow>
   ordersLoop m provider ids allRows =
     (ids, Returned (allRows @ concat (map (\<lambda>orderId.
        orderRows (fetched_order provider orderId)
          (case map_of m orderId of None \<Rightarrow> None | Some pid \<Rightarrow> pid)) ids)))"
proof (induction ids arbitrary: allRows)
  case Nil
  then show ?case by simp
next
  case (Cons orderId ids)
  then obtain fetched where f: "fetchOrder (provider orderId) = Returned fetched" by auto
  from Cons show ?case by (simp add: f fetched_order_def)
qed

lemma orderRows_payment:
  "r \<in> set (orderRows fetched pid) \<Longrightarrow> or_payment_id r = pid"
  by (auto simp: orderRows_def List.map_filter_def mapLineItemToRow_def Let_def
      split: option.splits if_splits)

lemma orderRows_no_items:
  "o_line_items order = None \<or> o_line_items order = Some [] \<Longrightarrow>
   orderRows (Some order) pid = []"
  by (auto simp: orderRows_def)

text \<open>
  C7. The order ids that the orders run fetches are the non-empty order ids that some
  payment refers to, each once; each is associated with the id of the first payment, in
  fetch order, that refers to it. When every \<open>fetchOrder\<close> returns, the run calls
  \<open>fetchOrder\<close> once for each of these ids, in the order of their first payments, and
  its rows are the rows of the fetched orders, made with the first payment's id; every
  row made for an order carries the payment id given for it; and an order without line
  items gives no rows and does not stop the run.
\<close>

theorem orders_join_first_payment:
  "distinct (uniqueOrderIds (orderToPayment payments []))
   \<and> set (uniqueOrderIds (orderToPayment payments [])) =
       {orderId. orderId \<noteq> [] \<and> (\<exists>p \<in> set payments. p_order_id p = Some orderId)}
   \<and> (\<forall>orderId \<in> set (uniqueOrderIds (orderToPayment payments [])).
        \<exists>p. find (\<lambda>p. p_order_id p = Some orderId) payments = Some p \<and>
            map_of (orderToPayment payments []) orderId = Some (p_id p))
   \<and> ((\<forall>orderId \<in> set (uniqueOrderIds (orderToPayment payments [])).
          \<exists>fetched. fetchOrder (provider orderId) = Returned fetched) \<longrightarrow>
        orderItemRows payments provider =
          (uniqueOrderIds (orderToPayment payments []),
           Returned (concat (map (\<lambda>orderId.
              orderRows (fetched_order provider orderId) (first_payment_id payments orderId))
              (uniqueOrderIds (orderToPayment payments []))))))
   \<and> (\<forall>r \<in> set (orderRows fetched pid). or_payment_id r = pid)
   \<and> (o_line_items order = None \<or> o_line_items order = Some [] \<longrightarrow>
        orderRows (Some order) pid = [])"
proof (intro conjI)
  let ?m = "orderToPayment payments []"
  let ?ids = "uniqueOrderIds ?m"
  show "distinct ?ids"
    using orderToPayment_distinct [of "[]" payments] by (simp add: uniqueOrderIds_def)
  show keys: "set ?ids =
      {orderId. orderId \<noteq> [] \<and> (\<exists>p \<in> set payments. p_order_id p = Some orderId)}"
    using orderToPayment_keys [of payments "[]"] by (simp add: uniqueOrderIds_def)
  have look: "map_of ?m orderId = map_option p_id (find (\<lambda>p. p_order_id p = Some orderId) payments)"
    if "orderId \<in> set ?ids" for orderId
    using that keys by (simp add: orderToPayment_lookup)
  show "\<forall>orderId \<in> set ?ids.
        \<exists>p. find (\<lambda>p. p_order_id p = Some orderId) payments = Some p \<and>
            map_of ?m orderId = Some (p_id p)"
  proof
    fix orderId assume i: "orderId \<in> set ?ids"
    with keys obtain q where "q \<in> set payments" "p_order_id q = Some orderId" by auto
    then have "find (\<lambda>p. p_order_id p = Some orderId) payments \<noteq> None"
      by (auto simp: find_None_iff)
    then obtain p where "find (\<lambda>p. p_order_id p = Some orderId) payments = Some p" by auto
    with look [OF i] show "\<exists>p. find (\<lambda>p. p_order_id p = Some orderId) payments = Some p \<and>
            map_of ?m orderId = Some (p_id p)" by simp
  qed
  show "(\<forall>orderId \<in> set ?ids. \<exists>fetched. fetchOrder (provider orderId) = Returned fetched) \<longrightarrow>
        orderItemRows payments provider =
          (?ids, Returned (concat (map (\<lambda>orderId.
              orderRows (fetched_order provider orderId) (first_payment_id payments orderId))
              ?ids)))"
  proof
    assume a: "\<forall>orderId \<in> set ?ids. \<exists>fetched. fetchOrder (provider orderId) = Returned fetched"
    have "(case map_of ?m orderId of None \<Rightarrow> None | Some pid \<Rightarrow> pid) =
          first_payment_id payments orderId" if "orderId \<in> set ?ids" for orderId
      using look [OF that] by (cases "find (\<lambda>p. p_order_id p = Some orderId) payments")
        (simp_all add: first_payment_id_def)
    then have "map (\<lambda>orderId. orderRows (fetched_order provider orderId)
          (case map_of ?m orderId of None \<Rightarrow> None | Some pid \<Rightarrow> pid)) ?ids =
        map (\<lambda>orderId. orderRows (fetched_order provider orderId)
          (first_payment_id payments orderId)) ?ids"
      by simp
    with ordersLoop_returns [OF a, of ?m "[]"] show "orderItemRows payments provider =
          (?ids, Returned (concat (map (\<lambda>orderId.
              orderRows (fetched_order provider orderId) (first_payment_id payments orderId))
              ?ids)))"
      by (simp add: orderItemRows_def Let_def)
  qed
  show "\<forall>r \<in> set (orderRows fetched pid). or_payment_id r = pid"
    using orderRows_payment by blast
  show "o_line_items order = None \<or> o_line_items order = Some [] \<longrightarrow>
        orderRows (Some order) pid = []"
    using orderRows_no_items by blast
qed



theorem orders_join_first_payment_witness:
  "orderItemRows [paid_payment ''P1'' (Some ''O1''), paid_payment ''P2'' (Some ''O1'')]
      provider_of_one
     = ([''O1''], Returned (orderRows (Some order_of_two) (Some ''P1'')))
   \<and> map or_payment_id (orderRows (Some order_of_two) (Some ''P1'')) =
       [Some ''P1'', Some ''P1'']
   \<and> map or_line_item_uid (orderRows (Some order_of_two) (Some ''P1'')) = [''L1'', ''L2'']"
proof -
  have ids: "uniqueOrderIds (orderToPayment
      [paid_payment ''P1'' (Some ''O1''), paid_payment ''P2'' (Some ''O1'')] []) = [''O1'']"
    by (simp add: uniqueOrderIds_def paid_payment_def truthy_def)
  have first: "first_payment_id
      [paid_payment ''P1'' (Some ''O1''), paid_payment ''P2'' (Some ''O1'')] ''O1'' = Some ''P1''"
    by (simp add: first_payment_id_def paid_payment_def)
  have fetched: "fetchOrder (provider_of_one ''O1'') = Returned (Some order_of_two)"
    by (simp add: provider_of_one_def ores_ok_def)
  have rows: "map or_payment_id (orderRows (Some order_of_two) (Some ''P1'')) =
       [Some ''P1'', Some ''P1'']
     \<and> map or_line_item_uid (orderRows (Some order_of_two) (Some ''P1'')) = [''L1'', ''L2'']"
    by (simp add: orderRows_def order_of_two_def List.map_filter_def mapLineItemToRow_def
        line_item_def quantityStr_def truthy_def parseFloat_1 parseFloat_2 isFinite_def
        le_zero_def)
  from orders_join_first_payment
    [of "[paid_payment ''P1'' (Some ''O1''), paid_payment ''P2'' (Some ''O1'')]"
        provider_of_one "Some order_of_two" "Some ''P1''" order_of_two, unfolded ids]
  show ?thesis
    using rows by (simp add: first fetched fetched_order_def)
qed

subsection \<open>Catalog inheritance\<close>

lemma itemNameById_found:
  assumes uniq: "\<forall>obj \<in> set objects. co_type obj = ''ITEM'' \<and> co_id obj = Some itemId \<longrightarrow> obj = item"
    and item: "co_type item = ''ITEM''" "co_id item = Some itemId" "itemId \<noteq> []"
      "Option.bind (co_item_data item) item_name = Some name" "name \<noteq> []"
    and here: "item \<in> set objects \<or> m itemId = Some name"
  shows "itemNameById objects m itemId = Some name"
  using uniq here
proof (induction objects arbitrary: m)
  case Nil
  then show ?case by simp
next
  case (Cons obj objects)
  define m' where "m' =
    (if co_type obj = ''ITEM'' then
       (let name = Option.bind (co_item_data obj) item_name
        in if truthy (co_id obj) \<and> truthy name
           then m(the (co_id obj) \<mapsto> the name) else m)
     else m)"
  have step: "itemNameById (obj # objects) m = itemNameById objects m'"
    by (simp add: m'_def)
  have u: "\<forall>obj \<in> set objects. co_type obj = ''ITEM'' \<and> co_id obj = Some itemId \<longrightarrow> obj = item"
    using Cons.prems(1) by simp
  have "item \<in> set objects \<or> m' itemId = Some name"
  proof (cases "co_type obj = ''ITEM'' \<and> co_id obj = Some itemId")
    case True
    with Cons.prems(1) have "obj = item" by simp
    with item show ?thesis by (simp add: m'_def truthy_def)
  next
    case False
    then have "obj \<noteq> item" using item by auto
    moreover have "m' itemId = m itemId"
      using False by (cases "co_id obj") (auto simp: m'_def Let_def truthy_def)
    ultimately show ?thesis using Cons.prems(2) by auto
  qed
  from Cons.IH [of m', OF u this] show ?case unfolding step .
qed

lemma itemCategoryById_found:
  assumes uniq: "\<forall>obj \<in> set objects. co_type obj = ''ITEM'' \<and> co_id obj = Some itemId \<longrightarrow> obj = item"
    and item: "co_type item = ''ITEM''" "co_id item = Some itemId" "itemId \<noteq> []"
      "Option.bind (co_item_data item) item_category_id = Some category" "category \<noteq> []"
    and here: "item \<in> set objects \<or> m itemId = Some category"
  shows "itemCategoryById objects m itemId = Some category"
  using uniq here
proof (induction objects arbitrary: m)
  case Nil
  then show ?case by simp
next
  case (Cons obj objects)
  define m' where "m' =
    (if co_type obj = ''ITEM'' then
       (let categoryId = Option.bind (co_item_data obj) item_category_id
        in if truthy (co_id obj) \<and> truthy categoryId
           then m(the (co_id obj) \<mapsto> the categoryId) else m)
     else m)"
  have step: "itemCategoryById (obj # objects) m = itemCategoryById objects m'"
    by (simp add: m'_def)
  have u: "\<forall>obj \<in> set objects. co_type obj = ''ITEM'' \<and> co_id obj = Some itemId \<longrightarrow> obj = item"
    using Cons.prems(1) by simp
  have "item \<in> set objects \<or> m' itemId = Some category"
  proof (cases "co_type obj = ''ITEM'' \<and> co_id obj = Some itemId")
    case True
    with Cons.prems(1) have "obj = item" by simp
    with item show ?thesis by (simp add: m'_def truthy_def)
  next
    case False
    then have "obj \<noteq> item" using item by auto
    moreover have "m' itemId = m itemId"
      using False by (cases "co_id obj") (auto simp: m'_def Let_def truthy_def)
    ultimately show ?thesis using Cons.prems(2) by auto
  qed
  from Cons.IH [of m', OF u this] show ?case unfolding step .
qed

lemma itemNameById_not_found:
  "\<forall>obj \<in> set objects. \<not> (co_type obj = ''ITEM'' \<and> co_id obj = Some itemId \<and>
      truthy (Option.bind (co_item_data obj) item_name)) \<Longrightarrow>
   itemNameById objects m itemId = m itemId"
proof (induction objects arbitrary: m)
  case Nil
  then show ?case by simp
next
  case (Cons obj objects)
  then show ?case by (cases "co_id obj") (auto simp: Let_def truthy_def)
qed

lemma variation_row_in_catalogRows:
  "v \<in> set objects \<Longrightarrow> co_type v = ''ITEM_VARIATION'' \<Longrightarrow>
   variationRow (itemNameById objects Map.empty) (itemCategoryById objects Map.empty) v = Some row \<Longrightarrow>
   row \<in> set (catalogRows objects)"
  by (force simp: catalogRows_def Let_def List.map_filter_def)


text \<open>
  C6. In a set of catalog records let an ITEM have the id I, the name N and the category
  id C (all present and not empty), and let it be the only ITEM with that id. A
  variation of the set that has an id and declares I as its item is mapped to a row of
  the batch with item name N, with the variation's own name and sku, and with category
  id C. A variation whose item is not resolved (it declares no item, or no ITEM of the
  set has that id and a name) has its own name as item name, and no item name when it
  has no name of its own.
\<close>

theorem variation_inherits_from_item:
  "(item \<in> set objects \<and> co_type item = ''ITEM'' \<and> co_id item = Some itemId \<and> itemId \<noteq> []
      \<and> Option.bind (co_item_data item) item_name = Some name \<and> name \<noteq> []
      \<and> Option.bind (co_item_data item) item_category_id = Some category \<and> category \<noteq> []
      \<and> (\<forall>obj \<in> set objects. co_type obj = ''ITEM'' \<and> co_id obj = Some itemId \<longrightarrow> obj = item)
      \<and> v \<in> set objects \<and> co_type v = ''ITEM_VARIATION'' \<and> truthy (co_id v)
      \<and> co_item_variation_data v = Some vd \<and> var_item_id vd = Some itemId
    \<longrightarrow> (\<exists>row. variationRow (itemNameById objects Map.empty)
                   (itemCategoryById objects Map.empty) v = Some row
          \<and> row \<in> set (catalogRows objects)
          \<and> kr_item_name row = Some name
          \<and> kr_variation_name row = var_name vd
          \<and> kr_sku row = var_sku vd
          \<and> kr_category_id row = Some category))
   \<and> (truthy (co_id w)
      \<and> (\<forall>parent. Option.bind (co_item_variation_data w) var_item_id = Some parent \<longrightarrow>
            (\<forall>obj \<in> set objects. \<not> (co_type obj = ''ITEM'' \<and> co_id obj = Some parent \<and>
               truthy (Option.bind (co_item_data obj) item_name))))
    \<longrightarrow> (\<exists>row. variationRow (itemNameById objects Map.empty)
                   (itemCategoryById objects Map.empty) w = Some row
          \<and> kr_item_name row = Option.bind (co_item_variation_data w) var_name))"
proof (intro conjI impI)
  assume a: "item \<in> set objects \<and> co_type item = ''ITEM'' \<and> co_id item = Some itemId \<and> itemId \<noteq> []
      \<and> Option.bind (co_item_data item) item_name = Some name \<and> name \<noteq> []
      \<and> Option.bind (co_item_data item) item_category_id = Some category \<and> category \<noteq> []
      \<and> (\<forall>obj \<in> set objects. co_type obj = ''ITEM'' \<and> co_id obj = Some itemId \<longrightarrow> obj = item)
      \<and> v \<in> set objects \<and> co_type v = ''ITEM_VARIATION'' \<and> truthy (co_id v)
      \<and> co_item_variation_data v = Some vd \<and> var_item_id vd = Some itemId"
  let ?names = "itemNameById objects Map.empty"
  let ?cats = "itemCategoryById objects Map.empty"
  from a have n: "?names itemId = Some name"
    by (intro itemNameById_found [where item = item]) simp_all
  from a have c: "?cats itemId = Some category"
    by (intro itemCategoryById_found [where item = item]) simp_all
  define row where "row =
    \<lparr> kr_catalog_object_id = co_id v, kr_object_type = co_type v, kr_item_name = Some name,
      kr_variation_name = var_name vd, kr_sku = var_sku vd, kr_category_id = Some category,
      kr_is_deleted = (co_is_deleted v = Some True), kr_raw_payload = v \<rparr>"
  have r: "variationRow ?names ?cats v = Some row"
    using a n c
    by (simp add: variationRow_def mapVariationToRow_def Let_def orElse_def row_def truthy_def)
  moreover from a r have "row \<in> set (catalogRows objects)"
    by (intro variation_row_in_catalogRows [where v = v]) simp_all
  ultimately show "\<exists>row. variationRow ?names ?cats v = Some row
          \<and> row \<in> set (catalogRows objects)
          \<and> kr_item_name row = Some name
          \<and> kr_variation_name row = var_name vd
          \<and> kr_sku row = var_sku vd
          \<and> kr_category_id row = Some category"
    by (simp add: row_def)
next
  assume b: "truthy (co_id w)
      \<and> (\<forall>parent. Option.bind (co_item_variation_data w) var_item_id = Some parent \<longrightarrow>
            (\<forall>obj \<in> set objects. \<not> (co_type obj = ''ITEM'' \<and> co_id obj = Some parent \<and>
               truthy (Option.bind (co_item_data obj) item_name))))"
  let ?names = "itemNameById objects Map.empty"
  let ?cats = "itemCategoryById objects Map.empty"
  let ?pid = "Option.bind (co_item_variation_data w) var_item_id"
  have none: "(if truthy ?pid then ?names (the ?pid) else None) = None"
  proof (cases ?pid)
    case None
    then show ?thesis by (simp add: truthy_def)
  next
    case (Some parent)
    with b have "\<forall>obj \<in> set objects. \<not> (co_type obj = ''ITEM'' \<and> co_id obj = Some parent \<and>
               truthy (Option.bind (co_item_data obj) item_name))" by blast
    from itemNameById_not_found [OF this, of Map.empty] Some show ?thesis by simp
  qed
  from b show "\<exists>row. variationRow ?names ?cats w = Some row
          \<and> kr_item_name row = Option.bind (co_item_variation_data w) var_name"
    unfolding variationRow_def Let_def none
    by (cases "Option.bind (co_item_variation_data w) var_name")
      (simp_all add: mapVariationToRow_def Let_def orElse_def)
qed

theorem variation_inherits_from_item_witness:
  "(\<exists>row. row \<in> set (catalogRows [latte_item, large_variation])
      \<and> kr_catalog_object_id row = Some ''V1''
      \<and> kr_item_name row = Some ''Latte''
      \<and> kr_variation_name row = Some ''Large''
      \<and> kr_sku row = Some ''SKU1''
      \<and> kr_category_id row = Some ''C1'')"
proof -
  have vd: "co_item_variation_data large_variation =
      Some \<lparr> var_name = Some ''Large'', var_sku = Some ''SKU1'', var_item_id = Some ''I1'' \<rparr>"
    by (simp add: large_variation_def)
  have ne: "latte_item \<noteq> large_variation"
    by (simp add: latte_item_def large_variation_def)
  have pre: "latte_item \<in> set [latte_item, large_variation] \<and> co_type latte_item = ''ITEM''
      \<and> co_id latte_item = Some ''I1'' \<and> ''I1'' \<noteq> []
      \<and> Option.bind (co_item_data latte_item) item_name = Some ''Latte'' \<and> ''Latte'' \<noteq> []
      \<and> Option.bind (co_item_data latte_item) item_category_id = Some ''C1'' \<and> ''C1'' \<noteq> []
      \<and> (\<forall>obj \<in> set [latte_item, large_variation].
            co_type obj = ''ITEM'' \<and> co_id obj = Some ''I1'' \<longrightarrow> obj = latte_item)
      \<and> large_variation \<in> set [latte_item, large_variation]
      \<and> co_type large_variation = ''ITEM_VARIATION'' \<and> truthy (co_id large_variation)
      \<and> co_item_variation_data large_variation =
          Some \<lparr> var_name = Some ''Large'', var_sku = Some ''SKU1'', var_item_id = Some ''I1'' \<rparr>
      \<and> var_item_id \<lparr> var_name = Some ''Large'', var_sku = Some ''SKU1'',
            var_item_id = Some ''I1'' \<rparr> = Some ''I1''"
    by (simp add: latte_item_def large_variation_def truthy_def)
  from variation_inherits_from_item
    [of latte_item "[latte_item, large_variation]" "''I1''" "''Latte''" "''C1''"
        large_variation
        "\<lparr> var_name = Some ''Large'', var_sku = Some ''SKU1'', var_item_id = Some ''I1'' \<rparr>"
        large_variation] pre
  obtain row where r: "variationRow (itemNameById [latte_item, large_variation] Map.empty)
        (itemCategoryById [latte_item, large_variation] Map.empty) large_variation = Some row"
    "row \<in> set (catalogRows [latte_item, large_variation])"
    "kr_item_name row = Some ''Latte''"
    "kr_variation_name row = Some ''Large''" "kr_sku row = Some ''SKU1''"
    "kr_category_id row = Some ''C1''"
    by auto
  from r(1) have "kr_catalog_object_id row = Some ''V1''"
    by (auto simp: variationRow_def mapVariationToRow_def Let_def large_variation_def
        split: if_splits)
  with r show ?thesis by blast
qed

text \<open>
  The category id inherited is the property \<open>category_id\<close> of \<open>item_data\<close>. An item
  that carries its category as the interface declares it, in \<open>categories\<close>, gives rows
  without a category id.
\<close>

lemma declared_category_is_not_inherited:
  "map kr_category_id (catalogRows [latte_item_declared, large_variation]) = [None, None]
   \<and> map kr_item_name (catalogRows [latte_item_declared, large_variation]) =
       [Some ''Latte'', Some ''Latte'']"
  by (simp add: catalogRows_def Let_def List.map_filter_def latte_item_declared_def
      large_variation_def variationRow_def mapVariationToRow_def itemRow_def truthy_def
      orElse_def)

subsection \<open>Records without their id\<close>









text \<open>
  The rows of the ITEM records are built in \<^verbatim>\<open>main\<close> without a mapper and without a test
  of the id.
\<close>

lemma item_row_has_no_id_test:
  "co_type obj = ''ITEM'' \<Longrightarrow>
   itemRow obj \<in> set (catalogRows (before @ [obj] @ after)) \<and>
   kr_catalog_object_id (itemRow obj) = co_id obj"
  by (simp add: catalogRows_def Let_def itemRow_def)


subsection \<open>Locations without id or name\<close>

text \<open>
  C9. A location record that lacks its id or its display name (the property is absent or
  is the empty string) is mapped to no row, whatever its other fields are; so a location
  with a valid id and no name is left out of the batch, and the records around it are
  mapped as if it were not there.
\<close>

theorem mapLocationToRow_requires_id_and_name:
  "(\<not> truthy (loc_id location) \<or> \<not> truthy (loc_name location)) \<longrightarrow>
     mapLocationToRow location = None \<and>
     locationRows (before @ [location] @ after) = locationRows (before @ after)"
  by (simp add: mapLocationToRow_def locationRows_def map_filter_app)

theorem mapLocationToRow_requires_id_and_name_witness:
  "mapLocationToRow \<lparr> loc_id = Some ''L1'', loc_name = None, loc_address = None,
       loc_timezone = Some ''UTC'', loc_status = Some ''ACTIVE'' \<rparr> = None
   \<and> mapLocationToRow \<lparr> loc_id = Some ''L1'', loc_name = Some [], loc_address = None,
       loc_timezone = None, loc_status = None \<rparr> = None
   \<and> locationRows [\<lparr> loc_id = Some ''L1'', loc_name = None, loc_address = None,
       loc_timezone = Some ''UTC'', loc_status = Some ''ACTIVE'' \<rparr>] = []"
  using mapLocationToRow_requires_id_and_name
    [of "\<lparr> loc_id = Some ''L1'', loc_name = None, loc_address = None,
         loc_timezone = Some ''UTC'', loc_status = Some ''ACTIVE'' \<rparr>" "[]" "[]"]
    mapLocationToRow_requires_id_and_name
    [of "\<lparr> loc_id = Some ''L1'', loc_name = Some [], loc_address = None,
         loc_timezone = None, loc_status = None \<rparr>" "[]" "[]"]
  by (simp add: truthy_def locationRows_def)

end
